theory Spec2Isabelle
  imports Complex_Main
begin

section \<open>Values, errors and tables\<close>

text \<open>
  The module \<open>time_series_utils.py\<close> works on pandas data frames. A frame is modelled
  row by row: the ordered column labels, the row labels (the index, with its optional
  name) and one list of cells per row, aligned with the column labels. Column labels
  are strings and may repeat, as pandas allows.

  A cell is a Python string, an integer, a float (represented by the real number it
  denotes), a timestamp (a point on the time axis, as an integer) or the missing value.
\<close>

datatype cell = Str string | IntV int | Flt real | Ts int | NaN

text \<open>
  Exceptions are values. \<open>NotASeries\<close> is the outcome of the model where pandas hands a
  sub-frame (and not a series) to code written for a series, because a label occurs twice: what
  happens next depends on pandas internals and is left out of the model.
\<close>

datatype py_error =
  KeyError | IndexError | TypeError | ValueError | AttributeError | UnboundLocalError | NotASeries

record dataframe =
  columns :: "string list"
  index_name :: "string option"
  index :: "cell list"
  rows :: "cell list list"

definition wf_frame :: "dataframe \<Rightarrow> bool" where
  "wf_frame df \<longleftrightarrow>
     length (index df) = length (rows df) \<and>
     (\<forall>r \<in> set (rows df). length r = length (columns df))"

definition row_get :: "string list \<Rightarrow> cell list \<Rightarrow> string \<Rightarrow> cell" where
  "row_get cols r c = (case map_of (zip cols r) c of Some v \<Rightarrow> v | None \<Rightarrow> NaN)"

definition column_values :: "dataframe \<Rightarrow> string \<Rightarrow> cell list" where
  "column_values df c = map (\<lambda>r. row_get (columns df) r c) (rows df)"

text \<open>\<open>df[c]\<close> where a series is expected.\<close>

definition getitem :: "dataframe \<Rightarrow> string \<Rightarrow> py_error + cell list" where
  "getitem df c =
     (if c \<notin> set (columns df) then Inl KeyError
      else if count_list (columns df) c > 1 then Inl NotASeries
      else Inr (column_values df c))"

text \<open>
  A Python \<open>dict\<close> keeps its keys in insertion order; assigning to a key that is present
  keeps the key's place.
\<close>

fun dict_set :: "'k \<Rightarrow> 'v \<Rightarrow> ('k \<times> 'v) list \<Rightarrow> ('k \<times> 'v) list" where
  "dict_set k v [] = [(k, v)]"
| "dict_set k v ((k', v') # d) =
     (if k' = k then (k, v) # d else (k', v') # dict_set k v d)"

section \<open>Accuracy scoring\<close>

text \<open>
  \<^verbatim>\<open>
  def get_model_accuracy_dict(nixtla_results_df, metric=r2_score):
      accuracy_dict = {}
      for column in nixtla_results_df.columns:
          if column in ["unique_id", "ds", "y", "cutoff"]:
              continue
          model_error = metric(nixtla_results_df["y"], nixtla_results_df[column])
          accuracy_dict[column] = model_error
      return accuracy_dict
  \<close>
  The metric is supplied by the caller; it may raise, and its score is a number, taken
  here as a real (the comparison of two floats that are numbers is the comparison of the
  reals they denote).
\<close>

type_synonym metric = "cell list \<Rightarrow> cell list \<Rightarrow> py_error + real"

definition reserved :: "string list" where
  "reserved = [''unique_id'', ''ds'', ''y'', ''cutoff'']"

fun accuracy_loop ::
  "dataframe \<Rightarrow> metric \<Rightarrow> string list \<Rightarrow> (string \<times> real) list \<Rightarrow> py_error + (string \<times> real) list"
where
  "accuracy_loop df metric [] accuracy_dict = Inr accuracy_dict"
| "accuracy_loop df metric (column # cs) accuracy_dict =
     (if column \<in> set reserved then accuracy_loop df metric cs accuracy_dict
      else case getitem df ''y'' of
        Inl e \<Rightarrow> Inl e
      | Inr y \<Rightarrow>
         (case getitem df column of
            Inl e \<Rightarrow> Inl e
          | Inr p \<Rightarrow>
             (case metric y p of
                Inl e \<Rightarrow> Inl e
              | Inr model_error \<Rightarrow>
                  accuracy_loop df metric cs (dict_set column model_error accuracy_dict))))"

definition get_model_accuracy_dict :: "dataframe \<Rightarrow> metric \<Rightarrow> py_error + (string \<times> real) list" where
  "get_model_accuracy_dict nixtla_results_df metric =
     accuracy_loop nixtla_results_df metric (columns nixtla_results_df) []"

text \<open>
  \<^verbatim>\<open>
  def get_best_model_from_results_df(nixtla_results_df, metric=r2_score):
      best_model, current_accuracy = None, 0
      accuracy_dict = get_model_accuracy_dict(nixtla_results_df, metric)
      for model, accuracy in accuracy_dict.items():
          if accuracy > current_accuracy:
              best_model, current_accuracy = model, accuracy
      return best_model
  \<close>
\<close>

fun best_loop :: "(string \<times> real) list \<Rightarrow> string option \<times> real \<Rightarrow> string option \<times> real" where
  "best_loop [] (best_model, current_accuracy) = (best_model, current_accuracy)"
| "best_loop ((model, accuracy) # items) (best_model, current_accuracy) =
     (if accuracy > current_accuracy then best_loop items (Some model, accuracy)
      else best_loop items (best_model, current_accuracy))"

definition get_best_model_from_results_df :: "dataframe \<Rightarrow> metric \<Rightarrow> py_error + string option" where
  "get_best_model_from_results_df nixtla_results_df metric =
     (case get_model_accuracy_dict nixtla_results_df metric of
        Inl e \<Rightarrow> Inl e
      | Inr accuracy_dict \<Rightarrow> Inr (fst (best_loop accuracy_dict (None, 0))))"

section \<open>Hierarchy specification\<close>

text \<open>
  \<^verbatim>\<open>
  def spec_hierarchy_from_list(col_list):
      spec = [["Total"]]
      for i in range(len(col_list)):
          spec.append(["Total"] + col_list[: i + 1])
      return spec
  \<close>
  The slice \<open>col_list[: i + 1]\<close> is \<open>take (i + 1) col_list\<close>.
\<close>

fun spec_loop :: "string list \<Rightarrow> nat list \<Rightarrow> string list list \<Rightarrow> string list list" where
  "spec_loop col_list [] spec = spec"
| "spec_loop col_list (i # is) spec =
     spec_loop col_list is (spec @ [[''Total''] @ take (i + 1) col_list])"

definition spec_hierarchy_from_list :: "string list \<Rightarrow> string list list" where
  "spec_hierarchy_from_list col_list = spec_loop col_list [0..<length col_list] [[''Total'']]"


text \<open>Sample inputs: two results tables and a metric that scores by table lookup.\<close>

definition sample_results :: dataframe where
  "sample_results =
     \<lparr>columns = [''unique_id'', ''ds'', ''y'', ''m1'', ''m2''], index_name = None,
      index = [IntV 0], rows = [[Str ''a'', Ts 0, IntV 5, IntV 1, IntV 2]]\<rparr>"

definition sample_results_low :: dataframe where
  "sample_results_low =
     \<lparr>columns = [''unique_id'', ''ds'', ''y'', ''m1''], index_name = None,
      index = [IntV 0], rows = [[Str ''a'', Ts 0, IntV 5, IntV 3]]\<rparr>"

definition sample_metric :: metric where
  "sample_metric y p =
     Inr (if p = [IntV 1] then 0.8 else if p = [IntV 2] then 0.95 else - 0.2)"

section \<open>Unpacking reconciled forecasts\<close>

text \<open>
  Python's \<open>sub in s\<close> on strings, and \<open>s.replace(old, new)\<close>, which replaces every
  occurrence of \<open>old\<close>, scanning from the left without overlap (an empty \<open>old\<close> matches
  before every character and at the end).
\<close>

definition starts_with :: "string \<Rightarrow> string \<Rightarrow> bool" where
  "starts_with p s \<longleftrightarrow> take (length p) s = p"

fun str_contains :: "string \<Rightarrow> string \<Rightarrow> bool" where
  "str_contains sub [] = (sub = [])"
| "str_contains sub (c # s) = (starts_with sub (c # s) \<or> str_contains sub s)"

function replace_scan :: "string \<Rightarrow> string \<Rightarrow> string \<Rightarrow> string" where
  "replace_scan old new s =
     (if old = [] \<or> s = [] then s
      else if starts_with old s then new @ replace_scan old new (drop (length old) s)
      else hd s # replace_scan old new (tl s))"
  by pat_completeness auto
termination
  by (relation "measure (\<lambda>(old, new, s). length s)") auto

definition str_replace :: "string \<Rightarrow> string \<Rightarrow> string \<Rightarrow> string" where
  "str_replace old new s =
     (if old = [] then new @ concat (map (\<lambda>c. c # new) s) else replace_scan old new s)"

text \<open>
  \<open>df.drop(col, axis=1)\<close> for a label that is present removes every column with that
  label. \<open>df[mask]\<close> keeps the rows, and their labels, where the mask holds.
  \<open>index.isin(labels)\<close> holds for a row label equal to one of the given column labels,
  which are strings. \<open>index.str.replace\<close> needs an index of object dtype (taken here as:
  the index is empty or holds a string), rewrites the labels that are strings, and gives
  the missing value for any other label.
\<close>

definition drop_column :: "dataframe \<Rightarrow> string \<Rightarrow> dataframe" where
  "drop_column df col =
     df\<lparr>columns := filter (\<lambda>n. n \<noteq> col) (columns df),
        rows := map (\<lambda>r. map snd (filter (\<lambda>(n, v). n \<noteq> col) (zip (columns df) r))) (rows df)\<rparr>"

definition isin :: "cell \<Rightarrow> string list \<Rightarrow> bool" where
  "isin l labels \<longleftrightarrow> (case l of Str s \<Rightarrow> s \<in> set labels | _ \<Rightarrow> False)"

definition keep_rows :: "dataframe \<Rightarrow> (cell \<Rightarrow> bool) \<Rightarrow> dataframe" where
  "keep_rows df keep =
     df\<lparr>index := filter keep (index df),
        rows := map snd (filter (\<lambda>(l, r). keep l) (zip (index df) (rows df)))\<rparr>"

definition object_index :: "cell list \<Rightarrow> bool" where
  "object_index idx \<longleftrightarrow> idx = [] \<or> (\<exists>l \<in> set idx. case l of Str s \<Rightarrow> True | _ \<Rightarrow> False)"

definition index_str_replace :: "string \<Rightarrow> string \<Rightarrow> cell \<Rightarrow> cell" where
  "index_str_replace old new l = (case l of Str s \<Rightarrow> Str (str_replace old new s) | _ \<Rightarrow> NaN)"

text \<open>
  \<^verbatim>\<open>
  def get_results_from_reconciled_df(reconciled_df, hierarchy_df):
      #  Drop unnecessary columns
      for col in reconciled_df.columns:
          if col not in ["ds", "y"]:
              if "BottomUp" not in col:
                  results_df = reconciled_df.drop(col, axis=1)  # removes original forecast column
                  break

      #  Drop higher-level rows
      lowest_level_ids = hierarchy_df.columns
      results_df = results_df[results_df.index.isin(lowest_level_ids)]
      results_df.index = results_df.index.str.replace("total/", "")
      return results_df
  \<close>
  The local variable \<open>results_df\<close> is bound only by the assignment inside the loop; the
  loop returns its binding, \<open>None\<close> when the assignment was never reached. Reading the
  unbound variable raises \<open>UnboundLocalError\<close>.
\<close>

fun drop_unreconciled :: "dataframe \<Rightarrow> string list \<Rightarrow> dataframe option" where
  "drop_unreconciled reconciled_df [] = None"
| "drop_unreconciled reconciled_df (col # cols) =
     (if col \<notin> set [''ds'', ''y''] then
        (if \<not> str_contains ''BottomUp'' col then Some (drop_column reconciled_df col)
         else drop_unreconciled reconciled_df cols)
      else drop_unreconciled reconciled_df cols)"

definition get_results_from_reconciled_df :: "dataframe \<Rightarrow> dataframe \<Rightarrow> py_error + dataframe" where
  "get_results_from_reconciled_df reconciled_df hierarchy_df =
     (case drop_unreconciled reconciled_df (columns reconciled_df) of
        None \<Rightarrow> Inl UnboundLocalError
      | Some results_df \<Rightarrow>
          (let lowest_level_ids = columns hierarchy_df;
               results_df = keep_rows results_df (\<lambda>l. isin l lowest_level_ids)
           in if \<not> object_index (index reconciled_df) then Inl AttributeError
              else Inr (results_df\<lparr>index := map (index_str_replace ''total/'' []) (index results_df)\<rparr>)))"

text \<open>
  Sample inputs. A reconciled table holding only reconciled forecasts; the table and
  matrix of the example \<open>[ds, y, m1, m1/BottomUp]\<close> with leaves \<open>a\<close>, \<open>b\<close>; and a hierarchy
  over \<open>region\<close> and \<open>store\<close> in which one region is itself called \<open>total\<close>, so that the leaf
  of store \<open>s1\<close> is \<open>total/total/s1\<close>.
\<close>

definition sample_only_reconciled :: dataframe where
  "sample_only_reconciled =
     \<lparr>columns = [''ds'', ''y'', ''m1/BottomUp''], index_name = Some ''unique_id'',
      index = [Str ''total'', Str ''total/a''],
      rows = [[Ts 0, IntV 3, IntV 4], [Ts 0, IntV 3, IntV 4]]\<rparr>"

definition sample_reconciled :: dataframe where
  "sample_reconciled =
     \<lparr>columns = [''ds'', ''y'', ''m1'', ''m1/BottomUp''], index_name = Some ''unique_id'',
      index = [Str ''total'', Str ''a'', Str ''b''],
      rows = [[Ts 0, IntV 3, IntV 5, IntV 4], [Ts 0, IntV 1, IntV 2, IntV 1],
              [Ts 0, IntV 2, IntV 3, IntV 3]]\<rparr>"

definition sample_leaves :: dataframe where
  "sample_leaves =
     \<lparr>columns = [''a'', ''b''], index_name = None,
      index = [Str ''total'', Str ''a'', Str ''b''],
      rows = [[IntV 1, IntV 1], [IntV 1, IntV 0], [IntV 0, IntV 1]]\<rparr>"

definition sample_reconciled_total :: dataframe where
  "sample_reconciled_total =
     \<lparr>columns = [''ds'', ''y'', ''m1'', ''m1/BottomUp''], index_name = Some ''unique_id'',
      index = [Str ''total'', Str ''total/total'', Str ''total/total/s1''],
      rows = [[Ts 0, IntV 3, IntV 5, IntV 4], [Ts 0, IntV 3, IntV 5, IntV 4],
              [Ts 0, IntV 3, IntV 5, IntV 4]]\<rparr>"

definition sample_leaves_total :: dataframe where
  "sample_leaves_total =
     \<lparr>columns = [''total/total/s1''], index_name = None,
      index = [Str ''total'', Str ''total/total'', Str ''total/total/s1''],
      rows = [[IntV 1], [IntV 1], [IntV 1]]\<rparr>"

section \<open>The table operations used by the format converter\<close>

text \<open>
  The settings dictionary (\<open>settings_dict\<close>, \<open>model_args\<close>), with every key the module
  reads present.
\<close>

record settings =
  frequency :: string
  group_by :: "string list"
  order_by :: string
  target :: string
  hierarchy :: "string list"

text \<open>
  What the module takes from pandas without computing it itself is a parameter of the
  model: the conversion of one value to a timestamp (\<open>None\<close> is the missing timestamp
  \<open>NaT\<close>), Python's \<open>str\<close> on a value that is not a string, the mean of a series
  resampled at a frequency (from the pairs of time and value to the pairs of bin and
  mean), the inference of a frequency from timestamps, and the period string of a
  time difference.
\<close>

record pandas =
  to_datetime :: "cell \<Rightarrow> py_error + int option"
  py_str :: "cell \<Rightarrow> string"
  resample_mean :: "string \<Rightarrow> (int option \<times> cell) list \<Rightarrow> py_error + (int \<times> cell) list"
  infer_freq :: "int option list \<Rightarrow> py_error + string option"
  freqstr :: "int option \<Rightarrow> py_error + string"

definition bind :: "py_error + 'a \<Rightarrow> ('a \<Rightarrow> py_error + 'b) \<Rightarrow> py_error + 'b" where
  "bind m f = (case m of Inl e \<Rightarrow> Inl e | Inr x \<Rightarrow> f x)"

fun mapE :: "('a \<Rightarrow> py_error + 'b) \<Rightarrow> 'a list \<Rightarrow> py_error + 'b list" where
  "mapE f [] = Inr []"
| "mapE f (x # xs) = bind (f x) (\<lambda>y. bind (mapE f xs) (\<lambda>ys. Inr (y # ys)))"

fun foldE :: "('s \<Rightarrow> 'a \<Rightarrow> py_error + 's) \<Rightarrow> 's \<Rightarrow> 'a list \<Rightarrow> py_error + 's" where
  "foldE f s [] = Inr s"
| "foldE f s (x # xs) = bind (f s x) (\<lambda>s'. foldE f s' xs)"

definition stamp :: "int option \<Rightarrow> cell" where
  "stamp t = (case t of Some n \<Rightarrow> Ts n | None \<Rightarrow> NaN)"

definition astype_str :: "pandas \<Rightarrow> cell \<Rightarrow> cell" where
  "astype_str env c = (case c of Str s \<Rightarrow> Str s | _ \<Rightarrow> Str (py_str env c))"

text \<open>\<open>sep.join(parts)\<close> and \<open>s.split(sep)\<close> for a separator of one character.\<close>

fun join :: "string \<Rightarrow> string list \<Rightarrow> string" where
  "join sep [] = []"
| "join sep [p] = p"
| "join sep (p # q # ps) = p @ sep @ join sep (q # ps)"

fun split :: "char \<Rightarrow> string \<Rightarrow> string list" where
  "split sep [] = [[]]"
| "split sep (c # s) =
     (if c = sep then [] # split sep s
      else (case split sep s of p # ps \<Rightarrow> (c # p) # ps | [] \<Rightarrow> [[c]]))"

text \<open>
  \<open>df[c] = values\<close> replaces the column labelled \<open>c\<close> (every column with that label) or
  appends a new last column; \<open>df[c] = v\<close> does so with a constant.
\<close>

definition set_row :: "string list \<Rightarrow> string \<Rightarrow> cell \<Rightarrow> cell list \<Rightarrow> cell list" where
  "set_row cols c v r = map (\<lambda>(n, old). if n = c then v else old) (zip cols r)"

definition setitem :: "dataframe \<Rightarrow> string \<Rightarrow> cell list \<Rightarrow> dataframe" where
  "setitem df c vs =
     (if c \<in> set (columns df)
      then df\<lparr>rows := map (\<lambda>(v, r). set_row (columns df) c v r) (zip vs (rows df))\<rparr>
      else df\<lparr>columns := columns df @ [c], rows := map (\<lambda>(v, r). r @ [v]) (zip vs (rows df))\<rparr>)"

definition setitem_const :: "dataframe \<Rightarrow> string \<Rightarrow> cell \<Rightarrow> dataframe" where
  "setitem_const df c v = setitem df c (replicate (length (rows df)) v)"

text \<open>
  \<open>df.rename(d, axis=1)\<close> for a dictionary display \<open>d\<close>: in a display a later entry
  replaces an earlier one with the same key; labels that are no key stay.
\<close>

definition rename_of :: "(string \<times> string) list \<Rightarrow> string \<Rightarrow> string" where
  "rename_of d c = (case map_of (rev d) c of Some n \<Rightarrow> n | None \<Rightarrow> c)"

definition rename :: "dataframe \<Rightarrow> (string \<times> string) list \<Rightarrow> dataframe" where
  "rename df d = df\<lparr>columns := map (rename_of d) (columns df)\<rparr>"

text \<open>
  \<open>df[names]\<close> takes, for each name in turn, the columns with that label, and raises
  \<open>KeyError\<close> if a name is no label. \<open>df.drop(names, axis=1)\<close> raises \<open>KeyError\<close> likewise.
\<close>

definition pick :: "string list \<Rightarrow> string list \<Rightarrow> cell list \<Rightarrow> cell list" where
  "pick cols names r = concat (map (\<lambda>c. map snd (filter (\<lambda>(n, v). n = c) (zip cols r))) names)"

definition select_columns :: "dataframe \<Rightarrow> string list \<Rightarrow> py_error + dataframe" where
  "select_columns df names =
     (if \<not> set names \<subseteq> set (columns df) then Inl KeyError
      else Inr (df\<lparr>columns := concat (map (\<lambda>c. filter (\<lambda>n. n = c) (columns df)) names),
                   rows := map (pick (columns df) names) (rows df)\<rparr>))"

definition drop_labels :: "dataframe \<Rightarrow> string list \<Rightarrow> py_error + dataframe" where
  "drop_labels df names =
     (if \<not> set names \<subseteq> set (columns df) then Inl KeyError
      else Inr (fold (\<lambda>c d. drop_column d c) names df))"

text \<open>
  \<open>df.reset_index(drop=...)\<close>: the new row labels are \<open>0, 1, ...\<close>; unless dropped, the old
  labels become the first column, under the name of the index (or \<open>index\<close>, or
  \<open>level_0\<close> when \<open>index\<close> is taken), which must not be a column label yet.
\<close>

definition range_index :: "nat \<Rightarrow> cell list" where
  "range_index n = map (\<lambda>i. IntV (int i)) [0..<n]"

definition reset_index :: "dataframe \<Rightarrow> bool \<Rightarrow> py_error + dataframe" where
  "reset_index df drop_old =
     (if drop_old then Inr (df\<lparr>index_name := None, index := range_index (length (index df))\<rparr>)
      else
        (let name = (case index_name df of Some n \<Rightarrow> n
                     | None \<Rightarrow> if ''index'' \<in> set (columns df) then ''level_0'' else ''index'')
         in if name \<in> set (columns df) then Inl ValueError
            else Inr \<lparr>columns = name # columns df, index_name = None,
                      index = range_index (length (index df)),
                      rows = map (\<lambda>(l, r). l # r) (zip (index df) (rows df))\<rparr>))"

text \<open>
  \<open>pd.concat([a, b])\<close>: the columns of \<open>a\<close>, then those of \<open>b\<close> that \<open>a\<close> lacks; the rows of
  \<open>a\<close>, then those of \<open>b\<close>, each with the missing value where its frame has no such column;
  the row labels of both, unchanged. pandas refuses frames in which a label repeats.
\<close>

definition realign :: "string list \<Rightarrow> string list \<Rightarrow> cell list \<Rightarrow> cell list" where
  "realign cols_to cols_from r =
     map (\<lambda>c. if c \<in> set cols_from then row_get cols_from r c else NaN) cols_to"

definition concat_frames :: "dataframe \<Rightarrow> dataframe \<Rightarrow> py_error + dataframe" where
  "concat_frames a b =
     (if \<not> distinct (columns a) \<or> \<not> distinct (columns b) then Inl ValueError
      else
        (let cols = columns a @ filter (\<lambda>c. c \<notin> set (columns a)) (columns b)
         in Inr \<lparr>columns = cols,
                  index_name = (if index_name a = index_name b then index_name a else None),
                  index = index a @ index b,
                  rows = map (realign cols (columns a)) (rows a) @
                         map (realign cols (columns b)) (rows b)\<rparr>))"

text \<open>
  \<open>df.groupby(by=names)\<close>, iterated: one pair of key and sub-frame for each distinct
  tuple of values of the named columns, in the sorted order of the keys; rows with a
  missing value in the key belong to no group. The key is a tuple also for a single
  name (pandas 2). The order of two keys is that of their first differing values:
  numbers by value, strings by their characters, timestamps by time, and values of
  different kinds by kind.
\<close>

fun string_le :: "string \<Rightarrow> string \<Rightarrow> bool" where
  "string_le [] t = True"
| "string_le (c # s) [] = False"
| "string_le (c # s) (d # t) =
     (of_char c < (of_char d :: nat) \<or> (c = d \<and> string_le s t))"

definition num_val :: "cell \<Rightarrow> real" where
  "num_val c = (case c of IntV i \<Rightarrow> of_int i | Flt x \<Rightarrow> x | _ \<Rightarrow> 0)"

definition kind :: "cell \<Rightarrow> nat" where
  "kind c = (case c of IntV i \<Rightarrow> 0 | Flt x \<Rightarrow> 0 | Str s \<Rightarrow> 1 | Ts t \<Rightarrow> 2 | NaN \<Rightarrow> 3)"

definition cell_le :: "cell \<Rightarrow> cell \<Rightarrow> bool" where
  "cell_le a b =
     (if kind a \<noteq> kind b then kind a < kind b
      else case (a, b) of
        (Str s, Str t) \<Rightarrow> string_le s t
      | (Ts s, Ts t) \<Rightarrow> s \<le> t
      | _ \<Rightarrow> num_val a \<le> num_val b)"

fun key_le :: "cell list \<Rightarrow> cell list \<Rightarrow> bool" where
  "key_le [] l = True"
| "key_le (a # k) [] = False"
| "key_le (a # k) (b # l) = (if a = b then key_le k l else cell_le a b)"

fun insert_by :: "('a \<Rightarrow> 'a \<Rightarrow> bool) \<Rightarrow> 'a \<Rightarrow> 'a list \<Rightarrow> 'a list" where
  "insert_by le x [] = [x]"
| "insert_by le x (y # ys) = (if le x y then x # y # ys else y # insert_by le x ys)"

definition sort_by :: "('a \<Rightarrow> 'a \<Rightarrow> bool) \<Rightarrow> 'a list \<Rightarrow> 'a list" where
  "sort_by le xs = foldr (insert_by le) xs []"

definition row_key :: "string list \<Rightarrow> string list \<Rightarrow> cell list \<Rightarrow> cell list" where
  "row_key cols names r = map (row_get cols r) names"

definition rows_where :: "dataframe \<Rightarrow> (cell list \<Rightarrow> bool) \<Rightarrow> dataframe" where
  "rows_where df P =
     df\<lparr>index := map fst (filter (\<lambda>(l, r). P r) (zip (index df) (rows df))),
        rows := filter P (rows df)\<rparr>"

definition groupby :: "dataframe \<Rightarrow> string list \<Rightarrow> py_error + (cell list \<times> dataframe) list" where
  "groupby df names =
     (if \<not> set names \<subseteq> set (columns df) then Inl KeyError
      else if \<exists>c \<in> set names. count_list (columns df) c > 1 then Inl NotASeries
      else
        (let keys = filter (\<lambda>k. NaN \<notin> set k) (map (row_key (columns df) names) (rows df))
         in Inr (map (\<lambda>k. (k, rows_where df (\<lambda>r. row_key (columns df) names r = k)))
                   (sort_by key_le (remdups keys)))))"

section \<open>The format converter\<close>

text \<open>
  One pass of the loop over the groups in \<open>transform_to_nixtla_df\<close>:
  \<^verbatim>\<open>
  for group, groupdf in nixtla_df.groupby(by=settings_dict["group_by"]):
      groupdf.index = pd.to_datetime(groupdf.pop(settings_dict["order_by"]))
      resampled_groupdf = pd.DataFrame(groupdf[settings_dict['target']].resample(freq).mean())
      for k, v in zip(settings_dict["group_by"], group):
          resampled_groupdf[k] = v
      resampled_groupdf = resampled_groupdf.reset_index()
      resampled_df = pd.concat([resampled_df, resampled_groupdf])
  \<close>
  The resampled series keeps the name of the target and its index the name of the
  order column.
\<close>

definition resample_group ::
  "pandas \<Rightarrow> settings \<Rightarrow> dataframe \<Rightarrow> cell list \<times> dataframe \<Rightarrow> py_error + dataframe"
where
  "resample_group env settings_dict resampled_df g =
     (case g of (grp, groupdf) \<Rightarrow>
        bind (getitem groupdf (order_by settings_dict)) (\<lambda>popped.
        let groupdf = drop_column groupdf (order_by settings_dict) in
        bind (mapE (to_datetime env) popped) (\<lambda>times.
        bind (getitem groupdf (target settings_dict)) (\<lambda>ys.
        bind (resample_mean env (frequency settings_dict) (zip times ys)) (\<lambda>bins.
        let resampled_groupdf =
              \<lparr>columns = [target settings_dict], index_name = Some (order_by settings_dict),
               index = map (\<lambda>(b, m). Ts b) bins, rows = map (\<lambda>(b, m). [m]) bins\<rparr>;
            resampled_groupdf =
              fold (\<lambda>(k, v) d. setitem_const d k v) (zip (group_by settings_dict) grp)
                resampled_groupdf
        in bind (reset_index resampled_groupdf False) (\<lambda>resampled_groupdf.
           concat_frames resampled_df resampled_groupdf))))))"

text \<open>
  \<^verbatim>\<open>
  for col in settings_dict["group_by"]:
      nixtla_df[col] = nixtla_df[col].astype(str)
  \<close>
  and \<open>nixtla_df[settings_dict["group_by"]].agg("/".join, axis=1)\<close>, which joins the
  values of each row and raises \<open>TypeError\<close> on a value that is not a string.
\<close>

definition astype_str_columns :: "pandas \<Rightarrow> dataframe \<Rightarrow> string list \<Rightarrow> py_error + dataframe" where
  "astype_str_columns env df cols =
     foldE (\<lambda>d col. bind (getitem d col) (\<lambda>vs. Inr (setitem d col (map (astype_str env) vs))))
       df cols"

definition join_cells :: "cell list \<Rightarrow> py_error + cell" where
  "join_cells vs =
     bind (mapE (\<lambda>v. case v of Str s \<Rightarrow> Inr s | _ \<Rightarrow> Inl TypeError) vs)
       (\<lambda>parts. Inr (Str (join ''/'' parts)))"

definition agg_join :: "dataframe \<Rightarrow> string list \<Rightarrow> py_error + cell list" where
  "agg_join df names = bind (select_columns df names) (\<lambda>sub. mapE join_cells (rows sub))"

text \<open>
  \<^verbatim>\<open>
  def transform_to_nixtla_df(df, settings_dict, exog_vars=[]):
      nixtla_df = df.copy()

      # Resample every group
      freq = settings_dict['frequency']
      resampled_df = pd.DataFrame(columns=nixtla_df.columns)
      if settings_dict["group_by"] and settings_dict["group_by"] != ['__group_by']:
          for group, groupdf in nixtla_df.groupby(by=settings_dict["group_by"]):
              ...
          nixtla_df = resampled_df

      # Transform group columns into single unique_id column
      if len(settings_dict["group_by"]) > 1:
          for col in settings_dict["group_by"]:
              nixtla_df[col] = nixtla_df[col].astype(str)
          nixtla_df["unique_id"] = nixtla_df[settings_dict["group_by"]].agg("/".join, axis=1)
          group_col = "ignore this"
      else:
          group_col = settings_dict["group_by"][0]

      # Rename columns to statsforecast names
      nixtla_df = nixtla_df.rename(
          {settings_dict["target"]: "y", settings_dict["order_by"]: "ds", group_col: "unique_id"}, axis=1
      )

      if "unique_id" not in nixtla_df.columns:
          # add to dataframe as it is expected by statsforecast
          nixtla_df["unique_id"] = '1'

      columns_to_keep = ["unique_id", "ds", "y"] + exog_vars
      nixtla_df["ds"] = pd.to_datetime(nixtla_df["ds"])
      return nixtla_df[columns_to_keep]
  \<close>
\<close>

text \<open>
  The function has three parts, headed in the source by the comments
  \<open>Resample every group\<close>, \<open>Transform group columns into single unique_id column\<close> and
  \<open>Rename columns to statsforecast names\<close>; each is a definition here, and
  \<open>transform_to_nixtla_df\<close> runs them in turn. The second part yields the table together
  with the value of \<open>group_col\<close>.
\<close>

definition resample_every_group :: "pandas \<Rightarrow> dataframe \<Rightarrow> settings \<Rightarrow> py_error + dataframe" where
  "resample_every_group env nixtla_df settings_dict =
     (let resampled_df = \<lparr>columns = columns nixtla_df, index_name = None, index = [], rows = []\<rparr>
      in if group_by settings_dict \<noteq> [] \<and> group_by settings_dict \<noteq> [''__group_by'']
         then bind (groupby nixtla_df (group_by settings_dict))
                (foldE (resample_group env settings_dict) resampled_df)
         else Inr nixtla_df)"

definition unique_id_column ::
  "pandas \<Rightarrow> dataframe \<Rightarrow> settings \<Rightarrow> py_error + dataframe \<times> string"
where
  "unique_id_column env nixtla_df settings_dict =
     (if length (group_by settings_dict) > 1
      then bind (astype_str_columns env nixtla_df (group_by settings_dict)) (\<lambda>nixtla_df.
           bind (agg_join nixtla_df (group_by settings_dict)) (\<lambda>ids.
           Inr (setitem nixtla_df ''unique_id'' ids, ''ignore this'')))
      else (case group_by settings_dict of
              [] \<Rightarrow> Inl IndexError
            | group_col # rest \<Rightarrow> Inr (nixtla_df, group_col)))"

definition statsforecast_names ::
  "pandas \<Rightarrow> dataframe \<Rightarrow> settings \<Rightarrow> string \<Rightarrow> string list \<Rightarrow> py_error + dataframe"
where
  "statsforecast_names env nixtla_df settings_dict group_col exog_vars =
     (let nixtla_df = rename nixtla_df
             [(target settings_dict, ''y''), (order_by settings_dict, ''ds''),
              (group_col, ''unique_id'')];
          nixtla_df = (if ''unique_id'' \<notin> set (columns nixtla_df)
                       then setitem_const nixtla_df ''unique_id'' (Str ''1'') else nixtla_df);
          columns_to_keep = [''unique_id'', ''ds'', ''y''] @ exog_vars
      in
      bind (getitem nixtla_df ''ds'') (\<lambda>ds.
      bind (mapE (to_datetime env) ds) (\<lambda>times.
      select_columns (setitem nixtla_df ''ds'' (map stamp times)) columns_to_keep)))"

definition transform_to_nixtla_df ::
  "pandas \<Rightarrow> dataframe \<Rightarrow> settings \<Rightarrow> string list \<Rightarrow> py_error + dataframe"
where
  "transform_to_nixtla_df env df settings_dict exog_vars =
     (let nixtla_df = df in
      bind (resample_every_group env nixtla_df settings_dict) (\<lambda>nixtla_df.
      bind (unique_id_column env nixtla_df settings_dict) (\<lambda>(nixtla_df, group_col).
      statsforecast_names env nixtla_df settings_dict group_col exog_vars)))"

text \<open>
  \<^verbatim>\<open>
  def get_results_from_nixtla_df(nixtla_df, model_args):
      return_df = nixtla_df.reset_index(drop=True if 'unique_id' in nixtla_df.columns else False)
      if len(model_args["group_by"]) > 0:
          if len(model_args["group_by"]) > 1:
              for i, group in enumerate(model_args["group_by"]):
                  return_df[group] = return_df["unique_id"].apply(lambda x: x.split("/")[i])
          else:
              group_by_col = model_args["group_by"][0]
              return_df[group_by_col] = return_df["unique_id"]

      return return_df.drop(["unique_id"], axis=1).rename({"ds": model_args["order_by"]}, axis=1)
  \<close>
  \<open>x.split("/")[i]\<close> raises \<open>AttributeError\<close> on a value that is not a string and
  \<open>IndexError\<close> when there are not more than \<open>i\<close> parts.
\<close>

definition split_part :: "nat \<Rightarrow> cell \<Rightarrow> py_error + cell" where
  "split_part i x =
     (case x of
        Str s \<Rightarrow> (let parts = split CHR ''/'' s
                  in if i < length parts then Inr (Str (parts ! i)) else Inl IndexError)
      | _ \<Rightarrow> Inl AttributeError)"

definition split_group :: "dataframe \<Rightarrow> nat \<times> string \<Rightarrow> py_error + dataframe" where
  "split_group return_df ig =
     (case ig of (i, grp) \<Rightarrow>
        bind (getitem return_df ''unique_id'') (\<lambda>ids.
        bind (mapE (split_part i) ids) (\<lambda>parts.
        Inr (setitem return_df grp parts))))"

definition get_results_from_nixtla_df :: "dataframe \<Rightarrow> settings \<Rightarrow> py_error + dataframe" where
  "get_results_from_nixtla_df nixtla_df model_args =
     bind (reset_index nixtla_df (''unique_id'' \<in> set (columns nixtla_df))) (\<lambda>return_df.
     bind (if length (group_by model_args) > 0 then
             (if length (group_by model_args) > 1 then
                foldE split_group return_df (enumerate 0 (group_by model_args))
              else
                (case group_by model_args of
                   [] \<Rightarrow> Inl IndexError
                 | group_by_col # rest \<Rightarrow>
                     bind (getitem return_df ''unique_id'') (\<lambda>ids.
                     Inr (setitem return_df group_by_col ids))))
           else Inr return_df) (\<lambda>return_df.
     bind (drop_labels return_df [''unique_id'']) (\<lambda>dropped.
     Inr (rename dropped [(''ds'', order_by model_args)]))))"

section \<open>Frequency inference\<close>

text \<open>
  \<open>df.sort_values(by=c)[c]\<close>: the values of the column in ascending order, missing
  values last; comparing values of different kinds raises \<open>TypeError\<close>.
  \<open>.unique()\<close> keeps the first occurrence of each value, in order.
\<close>

definition sort_values_column :: "cell list \<Rightarrow> py_error + cell list" where
  "sort_values_column vs =
     (let present = filter (\<lambda>v. v \<noteq> NaN) vs
      in if \<exists>a \<in> set present. \<exists>b \<in> set present. kind a \<noteq> kind b then Inl TypeError
         else Inr (sort_by cell_le present @ filter (\<lambda>v. v = NaN) vs))"

definition unique :: "'a list \<Rightarrow> 'a list" where
  "unique xs = rev (remdups (rev xs))"

text \<open>
  \<open>np.diff\<close> on timestamps (a difference with the missing timestamp is missing);
  \<open>np.unique(d, return_counts=True)\<close>, the distinct values in ascending order, the
  missing one last, each with the number of its occurrences; \<open>np.argmax\<close>, the first
  position of the largest count, which raises \<open>ValueError\<close> on an empty array.
\<close>

fun diff :: "int option list \<Rightarrow> int option list" where
  "diff (a # b # ts) =
     (case (a, b) of (Some x, Some y) \<Rightarrow> Some (y - x) | _ \<Rightarrow> None) # diff (b # ts)"
| "diff ts = []"

definition unique_sorted :: "int option list \<Rightarrow> int option list" where
  "unique_sorted ds =
     map Some (sort (remdups (concat (map (\<lambda>d. case d of Some n \<Rightarrow> [n] | None \<Rightarrow> []) ds))))
     @ (if None \<in> set ds then [None] else [])"

fun argmax :: "nat list \<Rightarrow> nat" where
  "argmax [] = 0"
| "argmax [c] = 0"
| "argmax (c # d # cs) = (let i = argmax (d # cs) in if c \<ge> (d # cs) ! i then 0 else Suc i)"

definition most_frequent_delta :: "int option list \<Rightarrow> py_error + int option" where
  "most_frequent_delta dates =
     (let d = diff dates;
          values = unique_sorted d;
          counts = map (count_list d) values
      in if counts = [] then Inl ValueError else Inr (values ! argmax counts))"

text \<open>
  \<^verbatim>\<open>
  def infer_frequency(df, time_column, default=DEFAULT_FREQUENCY):
      try:  # infer frequency from time column
          date_series = pd.to_datetime(df.sort_values(by=time_column)[time_column]).unique()
          inferred_freq = pd.infer_freq(date_series)  # call this first to get e.g. months & other irregular periods right
          if inferred_freq is None:
              values, counts = np.unique(np.diff(date_series), return_counts=True)
              delta = values[np.argmax(counts)]
              inferred_freq = to_offset(pd.to_timedelta(delta)).freqstr
      except TypeError:
          inferred_freq = default
      return inferred_freq if inferred_freq is not None else default
  \<close>
  \<open>infer_frequency_try\<close> is the body of the \<open>try\<close> statement, with the value of
  \<open>inferred_freq\<close> at its end.
\<close>

definition infer_frequency_try :: "pandas \<Rightarrow> dataframe \<Rightarrow> string \<Rightarrow> py_error + string option" where
  "infer_frequency_try env df time_column =
     bind (getitem df time_column) (\<lambda>col.
     bind (sort_values_column col) (\<lambda>sorted_col.
     bind (mapE (to_datetime env) sorted_col) (\<lambda>times.
     let date_series = unique times in
     bind (infer_freq env date_series) (\<lambda>inferred_freq.
     case inferred_freq of
       Some f \<Rightarrow> Inr (Some f)
     | None \<Rightarrow>
         bind (most_frequent_delta date_series) (\<lambda>delta.
         bind (freqstr env delta) (\<lambda>f. Inr (Some f)))))))"

definition infer_frequency :: "pandas \<Rightarrow> dataframe \<Rightarrow> string \<Rightarrow> string \<Rightarrow> py_error + string" where
  "infer_frequency env df time_column default_freq =
     (case infer_frequency_try env df time_column of
        Inl e \<Rightarrow> (if e = TypeError then Inr default_freq else Inl e)
      | Inr inferred_freq \<Rightarrow>
          Inr (case inferred_freq of Some f \<Rightarrow> f | None \<Rightarrow> default_freq))"


definition sample_words :: dataframe where
  "sample_words =
     \<lparr>columns = [''t''], index_name = None, index = [IntV 0, IntV 1],
      rows = [[Str ''foo''], [Str ''bar'']]\<rparr>"

definition sample_mixed :: dataframe where
  "sample_mixed =
     \<lparr>columns = [''t''], index_name = None, index = [IntV 0, IntV 1],
      rows = [[IntV 1], [Str ''bar'']]\<rparr>"

section \<open>Hierarchy building and reconciliation\<close>

text \<open>
  The optional library \<open>hierarchicalforecast\<close>: when the import fails, the module sets
  \<open>HierarchicalReconciliation\<close>, \<open>BottomUp\<close> and \<open>aggregate\<close> to \<open>None\<close>. The library, when
  present, provides the aggregation and the reconciliation (here with the bottom-up
  reconciler the module passes). The model threads the log of warnings; a function
  that ends without \<open>return\<close> yields \<open>None\<close>.
\<close>

type_synonym hier_dict = "(string \<times> string list) list"

record hierarchicalforecast =
  aggregate :: "dataframe \<Rightarrow> string list list \<Rightarrow> py_error + dataframe \<times> dataframe \<times> hier_dict"
  reconcile :: "dataframe \<Rightarrow> dataframe \<Rightarrow> dataframe \<Rightarrow> hier_dict \<Rightarrow> py_error + dataframe"

text \<open>\<open>df.insert(0, name, v)\<close> raises \<open>ValueError\<close> when the label exists.\<close>

definition insert_first :: "dataframe \<Rightarrow> string \<Rightarrow> cell \<Rightarrow> py_error + dataframe" where
  "insert_first df name v =
     (if name \<in> set (columns df) then Inl ValueError
      else Inr (df\<lparr>columns := name # columns df, rows := map (\<lambda>r. v # r) (rows df)\<rparr>))"

text \<open>
  \<^verbatim>\<open>
  def get_hierarchy_from_df(df, model_args):
      if HierarchicalReconciliation is not None:
          spec = spec_hierarchy_from_list(model_args["hierarchy"])

          nixtla_df = df.rename({model_args["order_by"]: "ds", model_args["target"]: "y"}, axis=1)
          nixtla_df["ds"] = pd.to_datetime(nixtla_df["ds"])
          for col in model_args["group_by"]:
              nixtla_df[col] = nixtla_df[col].astype(str)  # grouping columns need to be string format
          nixtla_df.insert(0, "Total", "total")

          nixtla_df, hier_df, hier_dict = aggregate(nixtla_df, spec)  # returns (nixtla_df, hierarchy_df, hierarchy_dict)
          return nixtla_df, hier_df, hier_dict
      else:
          log.logger.warning("HierarchicalForecast is not installed, but `get_hierarchy_from_df` has been called. This should never happen.")  # noqa
  \<close>
\<close>

definition get_hierarchy_from_df ::
  "hierarchicalforecast option \<Rightarrow> pandas \<Rightarrow> dataframe \<Rightarrow> settings \<Rightarrow> string list \<Rightarrow>
     (py_error + (dataframe \<times> dataframe \<times> hier_dict) option) \<times> string list"
where
  "get_hierarchy_from_df lib env df model_args logged =
     (case lib of
        Some hf \<Rightarrow>
          (let spec = spec_hierarchy_from_list (hierarchy model_args);
               nixtla_df = rename df [(order_by model_args, ''ds''), (target model_args, ''y'')]
           in
           (bind (getitem nixtla_df ''ds'') (\<lambda>ds.
            bind (mapE (to_datetime env) ds) (\<lambda>times.
            let nixtla_df = setitem nixtla_df ''ds'' (map stamp times) in
            bind (astype_str_columns env nixtla_df (group_by model_args)) (\<lambda>nixtla_df.
            bind (insert_first nixtla_df ''Total'' (Str ''total'')) (\<lambda>nixtla_df.
            bind (aggregate hf nixtla_df spec) (\<lambda>result. Inr (Some result)))))),
            logged))
      | None \<Rightarrow>
          (Inr None,
           logged @ [''HierarchicalForecast is not installed, but `get_hierarchy_from_df` has been called. This should never happen.'']))"

text \<open>
  \<^verbatim>\<open>
  def reconcile_forecasts(nixtla_df, forecast_df, hierarchy_df, hierarchy_dict):
      if HierarchicalReconciliation is not None:
          reconcilers = [DEFAULT_RECONCILER()]
          hrec = HierarchicalReconciliation(reconcilers=reconcilers)
          reconciled_df = hrec.reconcile(Y_hat_df=forecast_df, Y_df=nixtla_df, S=hierarchy_df, tags=hierarchy_dict)
          return get_results_from_reconciled_df(reconciled_df, hierarchy_df)
      else:
          log.logger.warning("HierarchicalForecast is not installed, but `reconcile_forecasts` has been called. This should never happen.")  # noqa
  \<close>
\<close>

definition reconcile_forecasts ::
  "hierarchicalforecast option \<Rightarrow> dataframe \<Rightarrow> dataframe \<Rightarrow> dataframe \<Rightarrow> hier_dict \<Rightarrow> string list \<Rightarrow>
     (py_error + dataframe option) \<times> string list"
where
  "reconcile_forecasts lib nixtla_df forecast_df hierarchy_df hierarchy_dict logged =
     (case lib of
        Some hf \<Rightarrow>
          (bind (reconcile hf forecast_df nixtla_df hierarchy_df hierarchy_dict) (\<lambda>reconciled_df.
           bind (get_results_from_reconciled_df reconciled_df hierarchy_df) (\<lambda>results.
           Inr (Some results))),
           logged)
      | None \<Rightarrow>
          (Inr None,
           logged @ [''HierarchicalForecast is not installed, but `reconcile_forecasts` has been called. This should never happen.'']))"

section \<open>Well-formed tables\<close>

text \<open>
  Every row has one cell per column. \<open>str_of\<close> is the text of a cell after
  \<open>astype(str)\<close>. A library keeps a resampled series non-empty when a series with at
  least one entry has at least one bin.
\<close>

definition wf_rows :: "string list \<Rightarrow> cell list list \<Rightarrow> bool" where
  "wf_rows cols rs \<longleftrightarrow> (\<forall>r \<in> set rs. length r = length cols)"

definition str_of :: "pandas \<Rightarrow> cell \<Rightarrow> string" where
  "str_of env c = (case c of Str s \<Rightarrow> s | _ \<Rightarrow> py_str env c)"

definition resample_keeps :: "pandas \<Rightarrow> bool" where
  "resample_keeps env \<longleftrightarrow>
     (\<forall>f ps bins. ps \<noteq> [] \<longrightarrow> resample_mean env f ps = Inr bins \<longrightarrow> bins \<noteq> [])"

text \<open>
  A table is well labelled for the settings when its labels are distinct and its rows
  complete, it has the order column and the target, these and the grouping columns are
  different columns, no column is called \<open>unique_id\<close> (nor \<open>ignore this\<close>, the name the
  code gives to \<open>group_col\<close>, when there are several grouping columns), and renaming the
  target to \<open>y\<close> and the order column to \<open>ds\<close> leaves the labels distinct.
\<close>

definition well_labelled :: "dataframe \<Rightarrow> settings \<Rightarrow> bool" where
  "well_labelled df cfg \<longleftrightarrow>
     distinct (columns df) \<and> wf_rows (columns df) (rows df) \<and>
     order_by cfg \<in> set (columns df) \<and> target cfg \<in> set (columns df) \<and>
     distinct (order_by cfg # target cfg # group_by cfg) \<and>
     ''unique_id'' \<notin> set (columns df) \<and>
     (length (group_by cfg) > 1 \<longrightarrow> ''ignore this'' \<notin> set (columns df)) \<and>
     distinct (map (rename_of [(target cfg, ''y''), (order_by cfg, ''ds'')]) (columns df))"

section \<open>Sample library and table\<close>

text \<open>
  Sample inputs: a library that reads day numbers as timestamps, formats integers,
  keeps each time of a series as its own bin, and follows pandas where the frequency
  inference is concerned on evenly spaced days; a table of sales by region and store.
\<close>

definition digits :: "nat \<Rightarrow> string" where
  "digits n = (if n < 10 then [char_of (48 + n)] else [char_of (48 + n div 10), char_of (48 + n mod 10)])"

definition sample_pandas :: pandas where
  "sample_pandas =
     \<lparr>to_datetime = (\<lambda>c. case c of Ts t \<Rightarrow> Inr (Some t) | IntV i \<Rightarrow> Inr (Some i)
                          | NaN \<Rightarrow> Inr None | _ \<Rightarrow> Inl ValueError),
      py_str = (\<lambda>c. case c of IntV i \<Rightarrow> digits (nat i) | Str s \<Rightarrow> s | _ \<Rightarrow> ''nan''),
      resample_mean = (\<lambda>f ps. Inr (map (\<lambda>(t, v). (case t of Some n \<Rightarrow> n | None \<Rightarrow> 0, v)) ps)),
      infer_freq = (\<lambda>ts. if length ts < 3 then Inl ValueError
                         else if diff ts = replicate (length ts - 1) (Some 1)
                              then Inr (Some ''D'') else Inr None),
      freqstr = (\<lambda>d. case d of Some n \<Rightarrow> if n = 1 then Inr ''D'' else Inr (digits (nat n) @ ''D'')
                      | None \<Rightarrow> Inl ValueError)\<rparr>"

definition sample_sales :: dataframe where
  "sample_sales =
     \<lparr>columns = [''region'', ''store'', ''day'', ''sales''], index_name = None,
      index = [IntV 0, IntV 1, IntV 2],
      rows = [[Str ''east'', IntV 1, IntV 10, IntV 5],
              [Str ''west'', IntV 2, IntV 10, IntV 7],
              [Str ''east'', IntV 1, IntV 11, IntV 6]]\<rparr>"

definition sample_settings :: settings where
  "sample_settings =
     \<lparr>frequency = ''D'', group_by = [''region'', ''store''], order_by = ''day'',
      target = ''sales'', hierarchy = [''region'', ''store'']\<rparr>"

(*PROOFS*)

section \<open>Properties of the accuracy scorer\<close>


lemma dict_set_fresh: "k \<notin> fst ` set d \<Longrightarrow> dict_set k v d = d @ [(k, v)]"
  by (induction d) auto

lemma accuracy_loop_sound:
  "accuracy_loop df metric cs acc = Inr d \<Longrightarrow> distinct cs \<Longrightarrow> set cs \<inter> fst ` set acc = {} \<Longrightarrow>
   map fst d = map fst acc @ filter (\<lambda>c. c \<notin> set reserved) cs \<and>
   (\<forall>(c, v) \<in> set d. (c, v) \<in> set acc \<or>
      (c \<in> set cs \<and> (\<exists>y p. getitem df ''y'' = Inr y \<and> getitem df c = Inr p \<and> metric y p = Inr v)))"
proof (induction cs arbitrary: acc)
  case Nil
  then show ?case by auto
next
  case (Cons c cs)
  show ?case
  proof (cases "c \<in> set reserved")
    case True
    with Cons.prems have "accuracy_loop df metric cs acc = Inr d" by simp
    from Cons.IH[OF this] Cons.prems True show ?thesis by auto
  next
    case False
    with Cons.prems obtain y p v where
      y: "getitem df ''y'' = Inr y" and p: "getitem df c = Inr p" and v: "metric y p = Inr v"
      and rest: "accuracy_loop df metric cs (dict_set c v acc) = Inr d"
      by (auto split: sum.splits)
    from Cons.prems have fresh: "c \<notin> fst ` set acc" by auto
    then have ds: "dict_set c v acc = acc @ [(c, v)]" by (rule dict_set_fresh)
    have "set cs \<inter> fst ` set (dict_set c v acc) = {}"
      using Cons.prems by (auto simp: ds)
    from Cons.IH[OF rest _ this] Cons.prems
    have IH: "map fst d = map fst (dict_set c v acc) @ filter (\<lambda>c. c \<notin> set reserved) cs"
      "\<forall>(c', v') \<in> set d. (c', v') \<in> set (dict_set c v acc) \<or>
      (c' \<in> set cs \<and> (\<exists>y p. getitem df ''y'' = Inr y \<and> getitem df c' = Inr p \<and> metric y p = Inr v'))"
      by auto
    from IH(1) False have "map fst d = map fst acc @ filter (\<lambda>c. c \<notin> set reserved) (c # cs)"
      by (simp add: ds)
    moreover from IH(2) y p v have "\<forall>(c', v') \<in> set d. (c', v') \<in> set acc \<or>
      (c' \<in> set (c # cs) \<and> (\<exists>y p. getitem df ''y'' = Inr y \<and> getitem df c' = Inr p \<and> metric y p = Inr v'))"
      by (fastforce simp: ds)
    ultimately show ?thesis by blast
  qed
qed

lemma accuracy_loop_total:
  "getitem df ''y'' = Inr y \<Longrightarrow>
   \<forall>c \<in> set cs. c \<notin> set reserved \<longrightarrow> (\<exists>p v. getitem df c = Inr p \<and> metric y p = Inr v) \<Longrightarrow>
   \<exists>d. accuracy_loop df metric cs acc = Inr d"
  by (induction cs arbitrary: acc) auto

lemma distinct_count_le_1: "distinct xs \<Longrightarrow> count_list xs x \<le> Suc 0"
  by (induction xs) auto

lemma getitem_distinct:
  "distinct (columns df) \<Longrightarrow> c \<in> set (columns df) \<Longrightarrow> getitem df c = Inr (column_values df c)"
  using distinct_count_le_1[of "columns df" c] by (simp add: getitem_def)

text \<open>
  Claim C8. For a results table with distinct column labels, whenever
  \<open>get_model_accuracy_dict\<close> returns a mapping, its keys are exactly the table's columns
  outside the reserved names \<open>unique_id\<close>, \<open>ds\<close>, \<open>y\<close>, \<open>cutoff\<close>, in column order, and
  the value of each key is the metric applied to the \<open>y\<close> column (first argument) and to
  that model column (second argument). It does return a mapping when the table has a
  \<open>y\<close> column and the metric returns a score on every model column.
\<close>

theorem accuracy_dict_keys_values:
  assumes "distinct (columns df)"
  shows "(\<forall>d. get_model_accuracy_dict df metric = Inr d \<longrightarrow>
            map fst d = filter (\<lambda>c. c \<notin> set reserved) (columns df) \<and>
            (\<forall>(c, v) \<in> set d. metric (column_values df ''y'') (column_values df c) = Inr v))
       \<and> (''y'' \<in> set (columns df) \<and>
           (\<forall>c \<in> set (columns df). c \<notin> set reserved \<longrightarrow>
               (\<exists>v. metric (column_values df ''y'') (column_values df c) = Inr v))
           \<longrightarrow> (\<exists>d. get_model_accuracy_dict df metric = Inr d))"
proof (intro conjI allI impI)
  fix d assume d: "get_model_accuracy_dict df metric = Inr d"
  then have loop: "accuracy_loop df metric (columns df) [] = Inr d"
    by (simp add: get_model_accuracy_dict_def)
  from accuracy_loop_sound[OF loop assms]
  have keys: "map fst d = filter (\<lambda>c. c \<notin> set reserved) (columns df)"
    and vals: "\<forall>(c, v) \<in> set d. c \<in> set (columns df) \<and>
       (\<exists>y p. getitem df ''y'' = Inr y \<and> getitem df c = Inr p \<and> metric y p = Inr v)"
    by auto
  show "map fst d = filter (\<lambda>c. c \<notin> set reserved) (columns df)" by (rule keys)
  show "\<forall>(c, v) \<in> set d. metric (column_values df ''y'') (column_values df c) = Inr v"
  proof (clarify)
    fix c v assume "(c, v) \<in> set d"
    with vals obtain y p where c: "c \<in> set (columns df)" and y: "getitem df ''y'' = Inr y"
      and p: "getitem df c = Inr p" and m: "metric y p = Inr v" by blast
    from y have "''y'' \<in> set (columns df)" by (auto simp: getitem_def split: if_splits)
    with y assms have "y = column_values df ''y''" by (simp add: getitem_distinct)
    moreover from p c assms have "p = column_values df c" by (simp add: getitem_distinct)
    ultimately show "metric (column_values df ''y'') (column_values df c) = Inr v" using m by simp
  qed
next
  assume a: "''y'' \<in> set (columns df) \<and>
           (\<forall>c \<in> set (columns df). c \<notin> set reserved \<longrightarrow>
               (\<exists>v. metric (column_values df ''y'') (column_values df c) = Inr v))"
  then have y: "getitem df ''y'' = Inr (column_values df ''y'')"
    using assms by (simp add: getitem_distinct)
  have "\<forall>c \<in> set (columns df). c \<notin> set reserved \<longrightarrow>
      (\<exists>p v. getitem df c = Inr p \<and> metric (column_values df ''y'') p = Inr v)"
    using a assms by (auto simp: getitem_distinct)
  from accuracy_loop_total[of df "column_values df ''y''" "columns df" metric "[]", OF y this]
  show "\<exists>d. get_model_accuracy_dict df metric = Inr d"
    by (simp add: get_model_accuracy_dict_def)
qed

theorem accuracy_dict_keys_values_witness:
  "get_model_accuracy_dict sample_results sample_metric = Inr [(''m1'', 0.8), (''m2'', 0.95)]
   \<and> distinct (columns sample_results) \<and> ''y'' \<in> set (columns sample_results)"
proof -
  have d: "distinct (columns sample_results)" by (simp add: sample_results_def)
  have pre: "''y'' \<in> set (columns sample_results) \<and>
           (\<forall>c \<in> set (columns sample_results). c \<notin> set reserved \<longrightarrow>
               (\<exists>v. sample_metric (column_values sample_results ''y'') (column_values sample_results c) = Inr v))"
    by (simp add: sample_results_def sample_metric_def)
  from accuracy_dict_keys_values[OF d, of sample_metric] pre
  obtain dd where dd: "get_model_accuracy_dict sample_results sample_metric = Inr dd"
    and keys: "map fst dd = filter (\<lambda>c. c \<notin> set reserved) (columns sample_results)"
    and vals: "\<forall>(c, v) \<in> set dd. sample_metric (column_values sample_results ''y'') (column_values sample_results c) = Inr v"
    by blast
  from keys have k: "map fst dd = [''m1'', ''m2'']"
    by (simp add: sample_results_def reserved_def)
  then obtain v1 v2 where dd2: "dd = [(''m1'', v1), (''m2'', v2)]"
    by (auto simp: map_eq_Cons_conv)
  from vals dd2 have "v1 = 0.8" "v2 = 0.95"
    by (simp_all add: sample_metric_def column_values_def row_get_def sample_results_def)
  with dd dd2 d pre show ?thesis by simp
qed

section \<open>Properties of the model selection\<close>

lemma best_loop_props:
  "best_loop items (b, cur) = (b', cur') \<Longrightarrow>
   cur \<le> cur' \<and> (\<forall>(m, s) \<in> set items. s \<le> cur') \<and>
   ((b' = b \<and> cur' = cur) \<or>
    (cur < cur' \<and> (\<exists>i < length items. \<exists>m. items ! i = (m, cur') \<and> b' = Some m \<and>
        (\<forall>j < i. snd (items ! j) < cur'))))"
proof (induction items arbitrary: b cur)
  case Nil
  then show ?case by simp
next
  case (Cons it items)
  obtain model accuracy where it: "it = (model, accuracy)" by (cases it)
  show ?case
  proof (cases "accuracy > cur")
    case True
    with Cons.prems it have "best_loop items (Some model, accuracy) = (b', cur')" by simp
    from Cons.IH[OF this] have le: "accuracy \<le> cur'" and all: "\<forall>(m, s) \<in> set items. s \<le> cur'"
      and alt: "(b' = Some model \<and> cur' = accuracy) \<or>
        (accuracy < cur' \<and> (\<exists>i < length items. \<exists>m. items ! i = (m, cur') \<and> b' = Some m \<and>
        (\<forall>j < i. snd (items ! j) < cur')))" by auto
    from alt have "cur < cur' \<and> (\<exists>i < length (it # items). \<exists>m. (it # items) ! i = (m, cur') \<and> b' = Some m \<and>
        (\<forall>j < i. snd ((it # items) ! j) < cur'))"
    proof
      assume "b' = Some model \<and> cur' = accuracy"
      then show ?thesis using True it by (intro conjI exI[of _ 0]) auto
    next
      assume r: "accuracy < cur' \<and> (\<exists>i < length items. \<exists>m. items ! i = (m, cur') \<and> b' = Some m \<and>
        (\<forall>j < i. snd (items ! j) < cur'))"
      then obtain i m where i: "i < length items" "items ! i = (m, cur')" "b' = Some m"
        "\<forall>j < i. snd (items ! j) < cur'" by blast
      have "\<forall>j < Suc i. snd ((it # items) ! j) < cur'"
      proof (intro allI impI)
        fix j assume "j < Suc i"
        then show "snd ((it # items) ! j) < cur'"
          using i(4) r it by (cases j) auto
      qed
      with i r True show ?thesis by (intro conjI exI[of _ "Suc i"]) auto
    qed
    with le all True it show ?thesis by auto
  next
    case False
    with Cons.prems it have "best_loop items (b, cur) = (b', cur')" by simp
    from Cons.IH[OF this] have le: "cur \<le> cur'" and all: "\<forall>(m, s) \<in> set items. s \<le> cur'"
      and alt: "(b' = b \<and> cur' = cur) \<or>
        (cur < cur' \<and> (\<exists>i < length items. \<exists>m. items ! i = (m, cur') \<and> b' = Some m \<and>
        (\<forall>j < i. snd (items ! j) < cur')))" by auto
    from alt have "(b' = b \<and> cur' = cur) \<or> (cur < cur' \<and> (\<exists>i < length (it # items). \<exists>m. (it # items) ! i = (m, cur') \<and> b' = Some m \<and>
        (\<forall>j < i. snd ((it # items) ! j) < cur')))"
    proof
      assume "b' = b \<and> cur' = cur" then show ?thesis by simp
    next
      assume r: "cur < cur' \<and> (\<exists>i < length items. \<exists>m. items ! i = (m, cur') \<and> b' = Some m \<and>
        (\<forall>j < i. snd (items ! j) < cur'))"
      then obtain i m where i: "i < length items" "items ! i = (m, cur')" "b' = Some m"
        "\<forall>j < i. snd (items ! j) < cur'" by blast
      have "\<forall>j < Suc i. snd ((it # items) ! j) < cur'"
      proof (intro allI impI)
        fix j assume "j < Suc i"
        then show "snd ((it # items) ! j) < cur'"
          using i(4) r it False by (cases j) auto
      qed
      with i r show ?thesis by (intro disjI2 conjI exI[of _ "Suc i"]) auto
    qed
    with le all False it show ?thesis by auto
  qed
qed

text \<open>
  Claim C5. Over the scores that \<open>get_model_accuracy_dict\<close> returns,
  \<open>get_best_model_from_results_df\<close> returns \<open>None\<close> when every score is at most 0;
  when some score is above 0 it returns the model at a position \<open>i\<close> whose score is
  above 0, is at least every other score, and is strictly above every score before \<open>i\<close>
  (the first model to reach the highest score is kept). On the scores
  \<open>{m1: 0.8, m2: 0.95}\<close> this is \<open>m2\<close>, on \<open>{m1: -0.2}\<close> it is \<open>None\<close>.
\<close>

theorem best_model_highest_positive:
  assumes "get_model_accuracy_dict df metric = Inr d"
  shows "((\<forall>(m, s) \<in> set d. s \<le> 0) \<longrightarrow> get_best_model_from_results_df df metric = Inr None)
       \<and> ((\<exists>(m, s) \<in> set d. 0 < s) \<longrightarrow>
            (\<exists>i < length d. get_best_model_from_results_df df metric = Inr (Some (fst (d ! i)))
                \<and> 0 < snd (d ! i)
                \<and> (\<forall>(m, s) \<in> set d. s \<le> snd (d ! i))
                \<and> (\<forall>j < i. snd (d ! j) < snd (d ! i))))"
proof -
  obtain b' cur' where bl: "best_loop d (None, 0) = (b', cur')" by (cases "best_loop d (None, 0)")
  have res: "get_best_model_from_results_df df metric = Inr b'"
    using assms bl by (simp add: get_best_model_from_results_df_def)
  from best_loop_props[OF bl] have ge: "0 \<le> cur'" and all: "\<forall>(m, s) \<in> set d. s \<le> cur'"
    and alt: "(b' = None \<and> cur' = 0) \<or>
      (0 < cur' \<and> (\<exists>i < length d. \<exists>m. d ! i = (m, cur') \<and> b' = Some m \<and> (\<forall>j < i. snd (d ! j) < cur')))"
    by auto
  show ?thesis
  proof (intro conjI impI)
    assume neg: "\<forall>(m, s) \<in> set d. s \<le> 0"
    have "b' = None"
    proof (rule ccontr)
      assume "b' \<noteq> None"
      with alt obtain i m where "0 < cur'" "i < length d" "d ! i = (m, cur')" by auto
      then have "(m, cur') \<in> set d" by (metis nth_mem)
      with neg \<open>0 < cur'\<close> show False by auto
    qed
    with res show "get_best_model_from_results_df df metric = Inr None" by simp
  next
    assume pos: "\<exists>(m, s) \<in> set d. 0 < s"
    with all have "0 < cur'" by force
    with alt obtain i m where i: "i < length d" "d ! i = (m, cur')" "b' = Some m"
      "\<forall>j < i. snd (d ! j) < cur'" by auto
    with res all \<open>0 < cur'\<close> show "\<exists>i < length d. get_best_model_from_results_df df metric = Inr (Some (fst (d ! i)))
                \<and> 0 < snd (d ! i)
                \<and> (\<forall>(m, s) \<in> set d. s \<le> snd (d ! i))
                \<and> (\<forall>j < i. snd (d ! j) < snd (d ! i))"
      by (intro exI[of _ i]) simp
  qed
qed

lemma sample_scores:
  "get_model_accuracy_dict sample_results sample_metric = Inr [(''m1'', 0.8), (''m2'', 0.95)]"
  by (simp add: get_model_accuracy_dict_def sample_results_def sample_metric_def reserved_def
      getitem_def column_values_def row_get_def)

lemma sample_scores_low:
  "get_model_accuracy_dict sample_results_low sample_metric = Inr [(''m1'', - 0.2)]"
  by (simp add: get_model_accuracy_dict_def sample_results_low_def sample_metric_def reserved_def
      getitem_def column_values_def row_get_def)

theorem best_model_highest_positive_witness:
  "get_model_accuracy_dict sample_results sample_metric = Inr [(''m1'', 0.8), (''m2'', 0.95)]
   \<and> get_best_model_from_results_df sample_results sample_metric = Inr (Some ''m2'')
   \<and> get_model_accuracy_dict sample_results_low sample_metric = Inr [(''m1'', - 0.2)]
   \<and> get_best_model_from_results_df sample_results_low sample_metric = Inr None"
proof -
  let ?d = "[(''m1'', 0.8), (''m2'', 0.95)] :: (string \<times> real) list"
  from best_model_highest_positive[OF sample_scores]
  obtain i where i: "i < length ?d"
    "get_best_model_from_results_df sample_results sample_metric = Inr (Some (fst (?d ! i)))"
    "\<forall>(m, s) \<in> set ?d. s \<le> snd (?d ! i)" by auto
  have "i = 1"
  proof (rule ccontr)
    assume "i \<noteq> 1"
    with i(1) have "i = 0" by simp
    with i(3) show False by simp
  qed
  with i(2) have a: "get_best_model_from_results_df sample_results sample_metric = Inr (Some ''m2'')"
    by simp
  from best_model_highest_positive[OF sample_scores_low]
  have b: "get_best_model_from_results_df sample_results_low sample_metric = Inr None" by simp
  from a b sample_scores sample_scores_low show ?thesis by simp
qed

section \<open>Properties of the hierarchy specification\<close>

lemma spec_loop_map:
  "spec_loop col_list is spec = spec @ map (\<lambda>i. ''Total'' # take (Suc i) col_list) is"
  by (induction "is" arbitrary: spec) simp_all

lemma spec_hierarchy_map:
  "spec_hierarchy_from_list ls = map (\<lambda>k. ''Total'' # take k ls) [0..<Suc (length ls)]"
proof -
  have "map (\<lambda>k. ''Total'' # take k ls) [0..<Suc (length ls)]
      = (''Total'' # take 0 ls) # map (\<lambda>k. ''Total'' # take k ls) (map Suc [0..<length ls])"
    by (simp only: upt_conv_Cons[of 0 "Suc (length ls)"] map_Suc_upt list.map) 
  then show ?thesis
    by (simp add: spec_hierarchy_from_list_def spec_loop_map comp_def)
qed

text \<open>
  Claim C4. For every list of level names, \<open>spec_hierarchy_from_list\<close> returns the
  cumulative paths \<open>[Total]\<close>, \<open>[Total, L1]\<close>, ..., \<open>[Total, L1, ..., Ln]\<close>, root first: entry
  \<open>k\<close> is \<open>Total\<close> followed by the first \<open>k\<close> levels. For the empty list it is
  \<open>[[Total]]\<close>, and each entry is the one before it extended by one level.
\<close>

theorem spec_hierarchy_cumulative:
  "spec_hierarchy_from_list ls = map (\<lambda>k. ''Total'' # take k ls) [0..<Suc (length ls)]
   \<and> spec_hierarchy_from_list [] = [[''Total'']]
   \<and> (\<forall>k < length ls. spec_hierarchy_from_list ls ! Suc k = spec_hierarchy_from_list ls ! k @ [ls ! k])"
  apply (intro conjI)
    apply (rule spec_hierarchy_map)
   apply (simp add: spec_hierarchy_from_list_def)
  apply (simp add: spec_hierarchy_map take_Suc_conv_app_nth del: upt_Suc)
  done

theorem spec_hierarchy_cumulative_witness:
  "spec_hierarchy_from_list [''region'', ''store'']
     = [[''Total''], [''Total'', ''region''], [''Total'', ''region'', ''store'']]
   \<and> spec_hierarchy_from_list [''region'', ''store''] ! Suc 1
     = spec_hierarchy_from_list [''region'', ''store''] ! 1 @ [''store'']"
proof -
  have u: "[0..<Suc (Suc (Suc 0))] = [0, Suc 0, Suc (Suc 0)]" by (simp add: upt_rec)
  from spec_hierarchy_cumulative[of "[''region'', ''store'']"]
  show ?thesis by (simp add: u del: upt_Suc)
qed

section \<open>Properties of the unpacking of reconciled forecasts\<close>

lemma drop_unreconciled_None:
  "\<forall>c \<in> set cols. c \<notin> set [''ds'', ''y''] \<longrightarrow> str_contains ''BottomUp'' c \<Longrightarrow>
   drop_unreconciled df cols = None"
  by (induction cols) auto

text \<open>
  Claim C10. If every column of the reconciled table other than \<open>ds\<close> and \<open>y\<close> contains
  the marker \<open>BottomUp\<close> (in particular if there is no other column),
  \<open>get_results_from_reconciled_df\<close> raises \<open>UnboundLocalError\<close> instead of returning a
  table: \<open>results_df\<close> is bound only in the branch that drops a column without the marker.
\<close>

theorem unbound_results_when_all_reconciled:
  assumes "\<forall>c \<in> set (columns reconciled_df). c \<notin> set [''ds'', ''y''] \<longrightarrow> str_contains ''BottomUp'' c"
  shows "get_results_from_reconciled_df reconciled_df hierarchy_df = Inl UnboundLocalError"
  using drop_unreconciled_None[OF assms]
  by (simp add: get_results_from_reconciled_df_def)

lemma contains_marker_m1: "str_contains ''BottomUp'' ''m1/BottomUp''"
  by code_simp

theorem unbound_results_when_all_reconciled_witness:
  "columns sample_only_reconciled = [''ds'', ''y'', ''m1/BottomUp'']
   \<and> str_contains ''BottomUp'' ''m1/BottomUp''
   \<and> get_results_from_reconciled_df sample_only_reconciled sample_leaves = Inl UnboundLocalError"
proof -
  have c: "columns sample_only_reconciled = [''ds'', ''y'', ''m1/BottomUp'']"
    by (simp add: sample_only_reconciled_def)
  have h: "\<forall>c \<in> set (columns sample_only_reconciled). c \<notin> set [''ds'', ''y''] \<longrightarrow> str_contains ''BottomUp'' c"
    using contains_marker_m1 by (simp add: c del: str_contains.simps)
  from unbound_results_when_all_reconciled[OF h] c contains_marker_m1 show ?thesis by blast
qed

text \<open>
  The example of the specification: columns \<open>[ds, y, m1, m1/BottomUp]\<close>, leaves \<open>a\<close> and \<open>b\<close>.
  The column \<open>m1\<close> and the row of \<open>total\<close> are dropped.
\<close>

lemma unpack_example:
  "get_results_from_reconciled_df sample_reconciled sample_leaves
     = Inr \<lparr>columns = [''ds'', ''y'', ''m1/BottomUp''], index_name = Some ''unique_id'',
            index = [Str ''a'', Str ''b''], rows = [[Ts 0, IntV 1, IntV 1], [Ts 0, IntV 2, IntV 3]]\<rparr>"
  by (simp add: get_results_from_reconciled_df_def sample_reconciled_def sample_leaves_def
      drop_column_def keep_rows_def isin_def object_index_def index_str_replace_def str_replace_def
      starts_with_def)

text \<open>
  Claim C2. \<open>get_results_from_reconciled_df\<close> is to remove the first column other than
  \<open>ds\<close> and \<open>y\<close> without the marker, keep the rows of the leaves, and strip the prefix
  \<open>total/\<close> from the row labels. On the leaf \<open>total/total/s1\<close> (store \<open>s1\<close> of a region
  called \<open>total\<close>) the code returns the label \<open>s1\<close>: \<open>str.replace\<close> removes every occurrence
  of \<open>total/\<close>, not the prefix alone, which would leave \<open>total/s1\<close>.
\<close>

theorem unpack_removes_every_total:
  "get_results_from_reconciled_df sample_reconciled_total sample_leaves_total
     = Inr \<lparr>columns = [''ds'', ''y'', ''m1/BottomUp''], index_name = Some ''unique_id'',
            index = [Str ''s1''], rows = [[Ts 0, IntV 3, IntV 4]]\<rparr>"
  by (simp add: get_results_from_reconciled_df_def sample_reconciled_total_def sample_leaves_total_def
      drop_column_def keep_rows_def isin_def object_index_def index_str_replace_def str_replace_def
      starts_with_def)

section \<open>Properties of the hierarchy functions without the optional library\<close>

text \<open>
  Claim C9. When the optional library is absent (\<open>HierarchicalReconciliation\<close> is
  \<open>None\<close>), \<open>get_hierarchy_from_df\<close> and \<open>reconcile_forecasts\<close> raise nothing: for every
  input each returns \<open>None\<close> and adds one warning to the log.
\<close>

theorem absent_library_warns_and_returns_none:
  "fst (get_hierarchy_from_df None env df model_args logged) = Inr None
   \<and> (\<exists>w. snd (get_hierarchy_from_df None env df model_args logged) = logged @ [w])
   \<and> fst (reconcile_forecasts None nixtla_df forecast_df hierarchy_df hierarchy_dict logged) = Inr None
   \<and> (\<exists>w. snd (reconcile_forecasts None nixtla_df forecast_df hierarchy_df hierarchy_dict logged) = logged @ [w])"
  by (simp add: get_hierarchy_from_df_def reconcile_forecasts_def)

section \<open>Properties of the frequency inference\<close>

lemma bind_Inr [simp]: "bind (Inr x) f = f x"
  by (simp add: bind_def)

lemma bind_Inl [simp]: "bind (Inl e) f = Inl e"
  by (simp add: bind_def)

lemma bind_eq_Inr: "bind m f = Inr y \<longleftrightarrow> (\<exists>x. m = Inr x \<and> f x = Inr y)"
  by (cases m) simp_all





text \<open>
  Claim C6, amended. \<open>infer_frequency\<close> returns the caller's default whenever a
  \<open>TypeError\<close> arises in the inference, be it in the sorting, in the conversion to
  timestamps or in the frequency inference of pandas, and it never raises a \<open>TypeError\<close>
  itself. An error of any other type is not caught and reaches the caller; a table
  without the time column raises \<open>KeyError\<close>.
\<close>

theorem infer_frequency_type_errors_only:
  "(infer_frequency_try env df time_column = Inl TypeError \<longrightarrow>
      infer_frequency env df time_column default_freq = Inr default_freq)
   \<and> (\<forall>col. getitem df time_column = Inr col \<and> sort_values_column col = Inl TypeError \<longrightarrow>
        infer_frequency env df time_column default_freq = Inr default_freq)
   \<and> (\<forall>col sorted_col. getitem df time_column = Inr col \<and> sort_values_column col = Inr sorted_col
        \<and> mapE (to_datetime env) sorted_col = Inl TypeError \<longrightarrow>
        infer_frequency env df time_column default_freq = Inr default_freq)
   \<and> (\<forall>col sorted_col dates. getitem df time_column = Inr col \<and> sort_values_column col = Inr sorted_col
        \<and> mapE (to_datetime env) sorted_col = Inr dates \<and> infer_freq env (unique dates) = Inl TypeError \<longrightarrow>
        infer_frequency env df time_column default_freq = Inr default_freq)
   \<and> (\<forall>e. e \<noteq> TypeError \<and> infer_frequency_try env df time_column = Inl e \<longrightarrow>
        infer_frequency env df time_column default_freq = Inl e)
   \<and> (time_column \<notin> set (columns df) \<longrightarrow>
        infer_frequency env df time_column default_freq = Inl KeyError)
   \<and> infer_frequency env df time_column default_freq \<noteq> Inl TypeError"
  by (auto simp: infer_frequency_def infer_frequency_try_def getitem_def split: sum.splits)

theorem infer_frequency_type_errors_only_witness:
  "getitem sample_mixed ''t'' = Inr [IntV 1, Str ''bar'']
   \<and> sort_values_column [IntV 1, Str ''bar''] = Inl TypeError
   \<and> infer_frequency sample_pandas sample_mixed ''t'' ''D'' = Inr ''D''
   \<and> ''ds'' \<notin> set (columns sample_words)
   \<and> infer_frequency sample_pandas sample_words ''ds'' ''D'' \<noteq> Inl TypeError"
proof -
  have g: "getitem sample_mixed ''t'' = Inr [IntV 1, Str ''bar'']"
    by (simp add: getitem_def sample_mixed_def column_values_def row_get_def)
  have s: "sort_values_column [IntV 1, Str ''bar''] = Inl TypeError"
    by (simp add: sort_values_column_def kind_def)
  have m: "''ds'' \<notin> set (columns sample_words)" by (simp add: sample_words_def)
  from infer_frequency_type_errors_only[of sample_pandas sample_mixed "''t''" "''D''"] g s
  have a: "infer_frequency sample_pandas sample_mixed ''t'' ''D'' = Inr ''D''" by blast
  from infer_frequency_type_errors_only[of sample_pandas sample_words "''ds''" "''D''"]
  have b: "infer_frequency sample_pandas sample_words ''ds'' ''D'' \<noteq> Inl TypeError" by blast
  from g s a m b show ?thesis by blast
qed

text \<open>
  Claim C6 as stated, that \<open>infer_frequency\<close> never raises, fails on a table that has no
  column of the given name: the \<open>KeyError\<close> of the lookup is no \<open>TypeError\<close>.
\<close>

theorem infer_frequency_missing_column_raises:
  "infer_frequency sample_pandas sample_words ''ds'' ''D'' = Inl KeyError"
  by (simp add: infer_frequency_def infer_frequency_try_def getitem_def sample_words_def)









section \<open>Cells of a row by label\<close>

lemma row_get_Cons [simp]: "row_get (n # cols) (v # r) c = (if c = n then v else row_get cols r c)"
  by (simp add: row_get_def)

lemma row_get_Nil [simp]: "row_get [] r c = NaN" "row_get cols [] c = NaN"
  by (simp_all add: row_get_def)

lemma row_get_notin: "c \<notin> set cols \<Longrightarrow> row_get cols r c = NaN"
proof -
  assume "c \<notin> set cols"
  then have "c \<notin> fst ` set (zip cols r)" by (auto dest: set_zip_leftD)
  then have "map_of (zip cols r) c = None" by (simp add: map_of_eq_None_iff)
  then show ?thesis by (simp add: row_get_def)
qed

lemma length_set_row [simp]: "length r = length cols \<Longrightarrow> length (set_row cols c v r) = length cols"
  by (simp add: set_row_def)

lemma set_row_Cons [simp]:
  "set_row (n # cols) c v (x # r) = (if n = c then v else x) # set_row cols c v r"
  by (simp add: set_row_def)

lemma set_row_Nil [simp]: "set_row [] c v r = []"
  by (simp add: set_row_def)

lemma row_get_set_row:
  "length r = length cols \<Longrightarrow>
   row_get cols (set_row cols c v r) c' = (if c' = c \<and> c \<in> set cols then v else row_get cols r c')"
  by (induction r cols rule: list_induct2) auto

lemma row_get_append_new:
  "length r = length cols \<Longrightarrow> c \<notin> set cols \<Longrightarrow>
   row_get (cols @ [c]) (r @ [v]) c' = (if c' = c then v else row_get cols r c')"
  by (induction r cols rule: list_induct2) auto

lemma row_get_map_ren:
  "inj_on f (insert c (set cols)) \<Longrightarrow> row_get (map f cols) r (f c) = row_get cols r c"
proof (induction cols arbitrary: r)
  case Nil
  then show ?case by simp
next
  case (Cons n cols)
  then have inj: "inj_on f (insert c (set cols))" by (auto simp: inj_on_def)
  show ?case
  proof (cases r)
    case Nil
    then show ?thesis by simp
  next
    case (Cons v r')
    have "f c = f n \<longleftrightarrow> c = n" using Cons.prems by (auto simp: inj_on_def)
    with Cons Cons.IH[OF inj] show ?thesis by simp
  qed
qed

lemma map_row_get_id:
  "length r = length cols \<Longrightarrow> distinct cols \<Longrightarrow> map (row_get cols r) cols = r"
proof (induction r cols rule: list_induct2)
  case Nil
  then show ?case by simp
next
  case (Cons v r n cols)
  then have "map (row_get (n # cols) (v # r)) cols = map (row_get cols r) cols"
    by (intro map_cong) auto
  with Cons show ?case by (simp del: row_get_Cons) simp
qed

lemma row_get_map:
  "distinct cols \<Longrightarrow> c \<in> set cols \<Longrightarrow> row_get cols (map f cols) c = f c"
  by (induction cols) auto

lemma pick_one:
  "length r = length cols \<Longrightarrow> distinct cols \<Longrightarrow> c \<in> set cols \<Longrightarrow>
   map snd (filter (\<lambda>(n, v). n = c) (zip cols r)) = [row_get cols r c]"
proof (induction r cols rule: list_induct2)
  case Nil
  then show ?case by simp
next
  case (Cons v r n cols)
  show ?case
  proof (cases "n = c")
    case True
    with Cons.prems have "c \<notin> set cols" by simp
    then have "filter (\<lambda>(n, v). n = c) (zip cols r) = []"
      by (auto simp: filter_empty_conv dest: set_zip_leftD)
    with True show ?thesis by simp
  next
    case False
    with Cons show ?thesis by simp
  qed
qed

lemma pick_distinct:
  "length r = length cols \<Longrightarrow> distinct cols \<Longrightarrow> set names \<subseteq> set cols \<Longrightarrow>
   pick cols names r = map (row_get cols r) names"
  by (induction names) (simp_all add: pick_def pick_one)

lemma filter_label_distinct:
  "distinct cols \<Longrightarrow> c \<in> set cols \<Longrightarrow> filter (\<lambda>n. n = c) cols = [c]"
  by (induction cols) (auto simp: filter_empty_conv)

lemma labels_distinct:
  "distinct cols \<Longrightarrow> set names \<subseteq> set cols \<Longrightarrow>
   concat (map (\<lambda>c. filter (\<lambda>n. n = c) cols) names) = names"
  by (induction names) (simp_all add: filter_label_distinct)

section \<open>Properties of the table operations\<close>

lemma wf_rows_Nil [simp]: "wf_rows cols []"
  by (simp add: wf_rows_def)

lemma wf_rows_append [simp]: "wf_rows cols (a @ b) \<longleftrightarrow> wf_rows cols a \<and> wf_rows cols b"
  by (auto simp: wf_rows_def)

lemma mapE_Inr:
  "mapE f xs = Inr ys \<Longrightarrow> list_all2 (\<lambda>x y. f x = Inr y) xs ys"
proof (induction xs arbitrary: ys)
  case Nil
  then show ?case by simp
next
  case (Cons x xs)
  then obtain y ys' where "f x = Inr y" "mapE f xs = Inr ys'" "ys = y # ys'"
    by (auto simp: bind_eq_Inr)
  with Cons.IH show ?case by simp
qed

lemma mapE_length: "mapE f xs = Inr ys \<Longrightarrow> length ys = length xs"
  by (drule mapE_Inr) (simp add: list_all2_lengthD)

lemma mapE_map: "mapE f (map g xs) = mapE (\<lambda>x. f (g x)) xs"
  by (induction xs) simp_all

lemma mapE_all_Inr: "\<forall>x \<in> set xs. f x = Inr (g x) \<Longrightarrow> mapE f xs = Inr (map g xs)"
  by (induction xs) simp_all

lemma zip_replicate_map:
  "map (\<lambda>(v, r). F v r) (zip (replicate (length rs) v) rs) = map (F v) rs"
  by (induction rs) simp_all

lemma zip_map_self: "map (\<lambda>(v, r). F v r) (zip (map f rs) rs) = map (\<lambda>r. F (f r) r) rs"
  by (induction rs) simp_all

lemma setitem_const_new:
  "c \<notin> set (columns df) \<Longrightarrow>
   setitem_const df c v = df\<lparr>columns := columns df @ [c], rows := map (\<lambda>r. r @ [v]) (rows df)\<rparr>"
  by (simp add: setitem_const_def setitem_def zip_replicate_map)

lemma setitem_map:
  "setitem df c (map f (rows df)) =
     (if c \<in> set (columns df)
      then df\<lparr>rows := map (\<lambda>r. set_row (columns df) c (f r) r) (rows df)\<rparr>
      else df\<lparr>columns := columns df @ [c], rows := map (\<lambda>r. r @ [f r]) (rows df)\<rparr>)"
  by (simp add: setitem_def zip_map_self)

lemma fold_setitem_const:
  "length G = length key \<Longrightarrow> distinct (C0 @ G) \<Longrightarrow>
   fold (\<lambda>(k, v) d. setitem_const d k v) (zip G key)
     \<lparr>columns = C0, index_name = nm, index = ix, rows = R0\<rparr>
   = \<lparr>columns = C0 @ G, index_name = nm, index = ix, rows = map (\<lambda>r. r @ key) R0\<rparr>"
proof (induction G key arbitrary: C0 R0 rule: list_induct2)
  case Nil
  then show ?case by simp
next
  case (Cons g G v key)
  from Cons.prems have g: "g \<notin> set C0" and d: "distinct ((C0 @ [g]) @ G)" by auto
  show ?case
    using Cons.IH[OF d, of "map (\<lambda>r. r @ [v]) R0"] g
    by (simp add: setitem_const_new comp_def)
qed

lemma set_insert_by: "set (insert_by le x xs) = insert x (set xs)"
  by (induction xs) auto

lemma set_sort_by [simp]: "set (sort_by le xs) = set xs"
  by (induction xs) (simp_all add: sort_by_def set_insert_by)

lemma groupby_groups:
  assumes "groupby df G = Inr groups"
  shows "fst ` set groups = {k \<in> row_key (columns df) G ` set (rows df). NaN \<notin> set k}"
    and "\<forall>(k, g) \<in> set groups. columns g = columns df \<and> rows g \<noteq> [] \<and> length k = length G
            \<and> set (rows g) \<subseteq> set (rows df)"
    and "set G \<subseteq> set (columns df)"
proof -
  let ?keys = "filter (\<lambda>k. NaN \<notin> set k) (map (row_key (columns df) G) (rows df))"
  from assms have sub: "set G \<subseteq> set (columns df)"
    and g: "groups = map (\<lambda>k. (k, rows_where df (\<lambda>r. row_key (columns df) G r = k)))
                   (sort_by key_le (remdups ?keys))"
    by (auto simp: groupby_def Let_def split: if_splits)
  show "set G \<subseteq> set (columns df)" by (rule sub)
  from g have "fst ` set groups = set ?keys" by (simp add: image_image)
  then show "fst ` set groups = {k \<in> row_key (columns df) G ` set (rows df). NaN \<notin> set k}" by auto
  show "\<forall>(k, g) \<in> set groups. columns g = columns df \<and> rows g \<noteq> [] \<and> length k = length G
            \<and> set (rows g) \<subseteq> set (rows df)"
  proof (clarify)
    fix k gdf assume "(k, gdf) \<in> set groups"
    with g have k: "k \<in> set ?keys" and gdf: "gdf = rows_where df (\<lambda>r. row_key (columns df) G r = k)"
      by auto
    from k obtain r where "r \<in> set (rows df)" "row_key (columns df) G r = k" by auto
    then have "rows gdf \<noteq> []" by (auto simp: gdf rows_where_def filter_empty_conv)
    moreover from k have "length k = length G" by (auto simp: row_key_def)
    ultimately show "columns gdf = columns df \<and> rows gdf \<noteq> [] \<and> length k = length G
            \<and> set (rows gdf) \<subseteq> set (rows df)"
      by (auto simp: gdf rows_where_def)
  qed
qed

section \<open>The resampling loop\<close>

lemma getitem_Inr: "getitem df c = Inr vs \<Longrightarrow> vs = column_values df c \<and> c \<in> set (columns df)"
  by (auto simp: getitem_def split: if_splits)

lemma length_column_values [simp]: "length (column_values df c) = length (rows df)"
  by (simp add: column_values_def)

lemma realign_same:
  "length r = length cols \<Longrightarrow> distinct cols \<Longrightarrow> realign cols cols r = r"
proof -
  assume a: "length r = length cols" "distinct cols"
  have "realign cols cols r = map (row_get cols r) cols"
    by (simp add: realign_def cong: map_cong)
  with a show ?thesis by (simp add: map_row_get_id)
qed

lemma row_key_realign:
  assumes "distinct cols" "set G \<subseteq> set cols" "distinct (a # b # G)" "length key = length G"
  shows "row_key cols G (realign cols (a # b # G) (x # y # key)) = key"
proof -
  have "row_key cols G (realign cols (a # b # G) (x # y # key))
      = map (\<lambda>c. if c \<in> set (a # b # G) then row_get (a # b # G) (x # y # key) c else NaN) G"
    using assms(1,2) by (auto simp: row_key_def realign_def row_get_map)
  also have "\<dots> = map (row_get G key) G"
    using assms(3) by (intro map_cong) auto
  also have "\<dots> = key" using assms(3,4) by (simp add: map_row_get_id)
  finally show ?thesis .
qed

lemma resample_group_rows:
  assumes run: "resample_group env cfg acc (key, gdf) = Inr acc'"
    and cols: "columns acc = cols" "columns gdf = cols" "distinct cols"
    and wf: "wf_rows cols (rows acc)"
    and names: "set (group_by cfg) \<subseteq> set cols" "order_by cfg \<in> set cols" "target cfg \<in> set cols"
      "distinct (order_by cfg # target cfg # group_by cfg)"
    and key: "length key = length (group_by cfg)"
  shows "columns acc' = cols \<and> wf_rows cols (rows acc') \<and>
         (\<exists>new. rows acc' = rows acc @ new \<and> (\<forall>r \<in> set new. row_key cols (group_by cfg) r = key)
             \<and> (resample_keeps env \<and> rows gdf \<noteq> [] \<longrightarrow> new \<noteq> []))"
proof -
  let ?G = "group_by cfg" and ?ob = "order_by cfg" and ?tg = "target cfg"
  let ?C = "?ob # ?tg # ?G"
  from run obtain popped dates ys bins d where
    g1: "getitem gdf ?ob = Inr popped"
    and g2: "mapE (to_datetime env) popped = Inr dates"
    and g3: "getitem (drop_column gdf ?ob) ?tg = Inr ys"
    and g4: "resample_mean env (frequency cfg) (zip dates ys) = Inr bins"
    and g5: "reset_index (fold (\<lambda>(k, v) d. setitem_const d k v) (zip ?G key)
               \<lparr>columns = [?tg], index_name = Some ?ob,
                index = map (\<lambda>(b, m). Ts b) bins, rows = map (\<lambda>(b, m). [m]) bins\<rparr>) False = Inr d"
    and g6: "concat_frames acc d = Inr acc'"
    by (auto simp: resample_group_def bind_eq_Inr Let_def)
  have len_dates: "length dates = length (rows gdf)"
    using mapE_length[OF g2] getitem_Inr[OF g1] by simp
  have len_ys: "length ys = length (rows gdf)"
    using getitem_Inr[OF g3] by (simp add: drop_column_def)
  have fold_eq: "fold (\<lambda>(k, v) d. setitem_const d k v) (zip ?G key)
               \<lparr>columns = [?tg], index_name = Some ?ob,
                index = map (\<lambda>(b, m). Ts b) bins, rows = map (\<lambda>(b, m). [m]) bins\<rparr>
      = \<lparr>columns = [?tg] @ ?G, index_name = Some ?ob,
         index = map (\<lambda>(b, m). Ts b) bins, rows = map (\<lambda>r. r @ key) (map (\<lambda>(b, m). [m]) bins)\<rparr>"
    using names(4) key by (intro fold_setitem_const) auto
  have d: "d = \<lparr>columns = ?C, index_name = None, index = range_index (length bins),
                rows = map (\<lambda>(b, m). Ts b # m # key) bins\<rparr>"
  proof -
    have "map (\<lambda>(l, r). l # r) (zip (map (\<lambda>(b, m). Ts b) bins) (map (\<lambda>r. r @ key) (map (\<lambda>(b, m). [m]) bins)))
        = map (\<lambda>(b, m). Ts b # m # key) bins"
      by (induction bins) auto
    with g5 names(4) show ?thesis by (auto simp: fold_eq reset_index_def)
  qed
  have filt: "filter (\<lambda>c. c \<notin> set cols) ?C = []"
    using names by (auto simp: filter_empty_conv)
  let ?new = "map (realign cols ?C) (map (\<lambda>(b, m). Ts b # m # key) bins)"
  have old: "map (realign cols cols) (rows acc) = rows acc"
    using wf cols(3) by (intro map_idI) (simp add: wf_rows_def realign_same)
  have dcols: "columns d = ?C" and drows: "rows d = map (\<lambda>(b, m). Ts b # m # key) bins"
    by (simp_all add: d)
  have dist: "distinct (columns acc)" "distinct (columns d)"
    using cols names(4) by (simp_all add: dcols)
  have F: "filter (\<lambda>c. c \<notin> set cols) (columns d) = []"
    unfolding dcols by (rule filt)
  from g6 dist have "acc' = \<lparr>columns = columns acc @ filter (\<lambda>c. c \<notin> set (columns acc)) (columns d),
                  index_name = (if index_name acc = index_name d then index_name acc else None),
                  index = index acc @ index d,
                  rows = map (realign (columns acc @ filter (\<lambda>c. c \<notin> set (columns acc)) (columns d)) (columns acc)) (rows acc) @
                         map (realign (columns acc @ filter (\<lambda>c. c \<notin> set (columns acc)) (columns d)) (columns d)) (rows d)\<rparr>"
    by (simp add: concat_frames_def Let_def)
  then have "acc' = \<lparr>columns = cols,
                  index_name = (if index_name acc = index_name d then index_name acc else None),
                  index = index acc @ index d,
                  rows = map (realign cols cols) (rows acc) @ map (realign cols (columns d)) (rows d)\<rparr>"
    unfolding cols(1) F append_Nil2 .
  then have acc': "columns acc' = cols" "rows acc' = rows acc @ ?new"
    unfolding old dcols drows by simp_all
  have wf_new: "wf_rows cols ?new" by (auto simp: wf_rows_def realign_def)
  have keys: "\<forall>r \<in> set ?new. row_key cols ?G r = key"
    using row_key_realign[OF cols(3) names(1) names(4) key] by auto
  have ne: "resample_keeps env \<and> rows gdf \<noteq> [] \<longrightarrow> ?new \<noteq> []"
  proof
    assume a: "resample_keeps env \<and> rows gdf \<noteq> []"
    with len_dates len_ys have "zip dates ys \<noteq> []" by (cases dates; cases ys) auto
    with a g4 have "bins \<noteq> []" unfolding resample_keeps_def by blast
    then show "?new \<noteq> []" by simp
  qed
  show ?thesis
  proof (intro conjI)
    show "columns acc' = cols" by (rule acc'(1))
    show "wf_rows cols (rows acc')" using wf wf_new by (simp add: acc'(2))
    show "\<exists>new. rows acc' = rows acc @ new \<and> (\<forall>r \<in> set new. row_key cols (group_by cfg) r = key)
             \<and> (resample_keeps env \<and> rows gdf \<noteq> [] \<longrightarrow> new \<noteq> [])"
    proof (intro exI conjI)
      show "rows acc' = rows acc @ ?new" by (rule acc'(2))
      show "\<forall>r \<in> set ?new. row_key cols (group_by cfg) r = key" by (rule keys)
      show "resample_keeps env \<and> rows gdf \<noteq> [] \<longrightarrow> ?new \<noteq> []" by (rule ne)
    qed
  qed
qed

lemma resample_loop_rows:
  assumes "foldE (resample_group env cfg) acc groups = Inr d1"
    and "columns acc = cols" "distinct cols" "wf_rows cols (rows acc)"
    and "set (group_by cfg) \<subseteq> set cols" "order_by cfg \<in> set cols" "target cfg \<in> set cols"
      "distinct (order_by cfg # target cfg # group_by cfg)"
    and "\<forall>(k, g) \<in> set groups. columns g = cols \<and> rows g \<noteq> [] \<and> length k = length (group_by cfg)"
  shows "columns d1 = cols \<and> wf_rows cols (rows d1) \<and>
         row_key cols (group_by cfg) ` set (rows d1)
           \<subseteq> row_key cols (group_by cfg) ` set (rows acc) \<union> fst ` set groups \<and>
         (resample_keeps env \<longrightarrow>
            row_key cols (group_by cfg) ` set (rows acc) \<union> fst ` set groups
              \<subseteq> row_key cols (group_by cfg) ` set (rows d1))"
  using assms
proof (induction groups arbitrary: acc)
  case Nil
  from Nil.prems(1) have "d1 = acc" by simp
  with Nil.prems(2,4) show ?case by simp
next
  case (Cons kg groups)
  obtain k g where kg: "kg = (k, g)" by (cases kg)
  from Cons.prems(1) have "bind (resample_group env cfg acc (k, g))
      (\<lambda>s'. foldE (resample_group env cfg) s' groups) = Inr d1"
    by (simp only: kg foldE.simps)
  then obtain acc' where
    step: "resample_group env cfg acc (k, g) = Inr acc'"
    and rest: "foldE (resample_group env cfg) acc' groups = Inr d1"
    unfolding bind_eq_Inr by blast
  from Cons.prems(9) have head: "columns g = cols \<and> rows g \<noteq> [] \<and> length k = length (group_by cfg)"
    by (simp add: kg)
  from Cons.prems(9) have others:
    "\<forall>(k, g) \<in> set groups. columns g = cols \<and> rows g \<noteq> [] \<and> length k = length (group_by cfg)"
    by simp
  from head have gk: "columns g = cols" "rows g \<noteq> []" "length k = length (group_by cfg)"
    by simp_all
  note step_facts = resample_group_rows[OF step Cons.prems(2) gk(1) Cons.prems(3,4,5,6,7,8) gk(3)]
  from step_facts have a1: "columns acc' = cols" by (rule conjunct1)
  from step_facts have a2: "wf_rows cols (rows acc')" by (rule conjunct2[THEN conjunct1])
  from step_facts have "\<exists>new. rows acc' = rows acc @ new \<and> (\<forall>r \<in> set new. row_key cols (group_by cfg) r = k)
             \<and> (resample_keeps env \<and> rows g \<noteq> [] \<longrightarrow> new \<noteq> [])"
    by (rule conjunct2[THEN conjunct2])
  then obtain new where a3: "rows acc' = rows acc @ new"
    and a4: "\<forall>r \<in> set new. row_key cols (group_by cfg) r = k"
    and a5: "resample_keeps env \<and> rows g \<noteq> [] \<longrightarrow> new \<noteq> []"
    by (elim exE conjE)
  note ih = Cons.IH[OF rest a1 Cons.prems(3) a2 Cons.prems(5,6,7,8) others]
  define K where "K = row_key cols (group_by cfg)"
  define A where "A = K ` set (rows acc)"
  define A' where "A' = K ` set (rows acc')"
  define D where "D = K ` set (rows d1)"
  define Gs where "Gs = fst ` set groups"
  define N where "N = K ` set new"
  from ih have i1: "columns d1 = cols" by (rule conjunct1)
  from ih have i2: "wf_rows cols (rows d1)" by (rule conjunct2[THEN conjunct1])
  from ih have i3: "D \<subseteq> A' \<union> Gs"
    unfolding D_def A'_def Gs_def K_def by (rule conjunct2[THEN conjunct2, THEN conjunct1])
  from ih have i4: "resample_keeps env \<longrightarrow> A' \<union> Gs \<subseteq> D"
    unfolding D_def A'_def Gs_def K_def by (rule conjunct2[THEN conjunct2, THEN conjunct2])
  have A'_eq: "A' = A \<union> N"
    unfolding A'_def A_def N_def a3 by (simp add: image_Un)
  have N_sub: "N \<subseteq> {k}"
    unfolding N_def K_def using a4 by (simp add: image_subset_iff)
  have N_sup: "resample_keeps env \<longrightarrow> N = {k}"
  proof
    assume "resample_keeps env"
    with a5 gk(2) have "new \<noteq> []" by simp
    then obtain r where r: "r \<in> set new" by (cases new) auto
    with a4 have "K r = k" by (simp add: K_def)
    with r have "k \<in> N" unfolding N_def by (rule_tac image_eqI[of _ _ r]) simp_all
    with N_sub show "N = {k}" by blast
  qed
  have Gs': "fst ` set (kg # groups) = {k} \<union> Gs" by (simp add: kg Gs_def)
  have c1: "D \<subseteq> A \<union> fst ` set (kg # groups)"
    using i3 A'_eq N_sub unfolding Gs' by blast
  have c2: "resample_keeps env \<longrightarrow> A \<union> fst ` set (kg # groups) \<subseteq> D"
    using i4 A'_eq N_sup unfolding Gs' by blast
  show ?case
    using i1 i2 c1 c2 unfolding D_def A_def K_def by (intro conjI)
qed

section \<open>Assignments to a column, row by row\<close>

lemma astype_str_eq: "astype_str env c = Str (str_of env c)"
  by (cases c) (simp_all add: astype_str_def str_of_def)

lemma astype_str_idem [simp]: "astype_str env (astype_str env c) = astype_str env c"
  by (simp add: astype_str_eq str_of_def)

lemma setitem_rows_old:
  "list_all2 R rs vs \<Longrightarrow> \<forall>r \<in> set rs. length r = length cols \<Longrightarrow>
   list_all2 (\<lambda>r r'. length r' = length cols \<and>
      (\<exists>v. R r v \<and> (\<forall>c'. row_get cols r' c' = (if c' = c \<and> c \<in> set cols then v else row_get cols r c'))))
     rs (map (\<lambda>(v, r). set_row cols c v r) (zip vs rs))"
proof (induction rule: list_all2_induct)
  case Nil
  then show ?case by simp
next
  case (Cons r rs v vs)
  from Cons.prems have len: "length r = length cols" by simp
  have "length (set_row cols c v r) = length cols \<and>
      (\<exists>v'. R r v' \<and> (\<forall>c'. row_get cols (set_row cols c v r) c' =
          (if c' = c \<and> c \<in> set cols then v' else row_get cols r c')))"
    using len Cons.hyps(1) by (intro conjI exI[of _ v]) (simp_all add: row_get_set_row)
  with Cons show ?case by simp
qed

lemma setitem_rows_new:
  "list_all2 R rs vs \<Longrightarrow> \<forall>r \<in> set rs. length r = length cols \<Longrightarrow> c \<notin> set cols \<Longrightarrow>
   list_all2 (\<lambda>r r'. length r' = length (cols @ [c]) \<and>
      (\<exists>v. R r v \<and> (\<forall>c'. row_get (cols @ [c]) r' c' = (if c' = c then v else row_get cols r c'))))
     rs (map (\<lambda>(v, r). r @ [v]) (zip vs rs))"
proof (induction rule: list_all2_induct)
  case Nil
  then show ?case by simp
next
  case (Cons r rs v vs)
  from Cons.prems have len: "length r = length cols" by simp
  have "length (r @ [v]) = length (cols @ [c]) \<and>
      (\<exists>v'. R r v' \<and> (\<forall>c'. row_get (cols @ [c]) (r @ [v]) c' =
          (if c' = c then v' else row_get cols r c')))"
    using len Cons.hyps(1) Cons.prems(2) by (intro conjI exI[of _ v]) (simp_all add: row_get_append_new)
  with Cons show ?case by simp
qed

text \<open>The columns and rows of a table after an assignment to a column.\<close>

lemma setitem_rel:
  assumes "list_all2 R (rows d) vs" and "wf_rows (columns d) (rows d)"
  shows "columns (setitem d c vs) = (if c \<in> set (columns d) then columns d else columns d @ [c])"
    and "list_all2 (\<lambda>r r'. length r' = length (columns (setitem d c vs)) \<and>
      (\<exists>v. R r v \<and> (\<forall>c'. row_get (columns (setitem d c vs)) r' c' =
                 (if c' = c then v else row_get (columns d) r c'))))
     (rows d) (rows (setitem d c vs))"
proof -
  show "columns (setitem d c vs) = (if c \<in> set (columns d) then columns d else columns d @ [c])"
    by (simp add: setitem_def)
  from assms(2) have wf: "\<forall>r \<in> set (rows d). length r = length (columns d)"
    by (simp add: wf_rows_def)
  show "list_all2 (\<lambda>r r'. length r' = length (columns (setitem d c vs)) \<and>
      (\<exists>v. R r v \<and> (\<forall>c'. row_get (columns (setitem d c vs)) r' c' =
                 (if c' = c then v else row_get (columns d) r c'))))
     (rows d) (rows (setitem d c vs))"
  proof (cases "c \<in> set (columns d)")
    case True
    from setitem_rows_old[OF assms(1) wf, of c] True show ?thesis
      by (simp add: setitem_def)
  next
    case False
    from setitem_rows_new[OF assms(1) wf False] False show ?thesis
      by (simp add: setitem_def)
  qed
qed

lemma wf_rows_rel:
  "list_all2 (\<lambda>r r'. length r' = n \<and> P r r') rs rs' \<Longrightarrow> length cols = n \<Longrightarrow> wf_rows cols rs'"
proof (induction rule: list_all2_induct)
  case Nil
  then show ?case by simp
next
  case (Cons r rs r' rs')
  then show ?case by (simp add: wf_rows_def)
qed

lemma list_all2_column_values:
  "list_all2 (\<lambda>r v. v = row_get (columns d) r c) (rows d) (column_values d c)"
  by (simp add: column_values_def list_all2_map2 list_all2_same)

section \<open>Text conversion and joining of the grouping columns\<close>

lemma astype_str_columns_rel:
  assumes "astype_str_columns env d L = Inr d2" and "wf_rows (columns d) (rows d)"
  shows "columns d2 = columns d \<and> set L \<subseteq> set (columns d) \<and>
     list_all2 (\<lambda>r r2. length r2 = length (columns d) \<and>
        (\<forall>c. row_get (columns d) r2 c =
           (if c \<in> set L then astype_str env (row_get (columns d) r c) else row_get (columns d) r c)))
       (rows d) (rows d2)"
  using assms
proof (induction L arbitrary: d)
  case Nil
  then have "d2 = d" by (simp add: astype_str_columns_def)
  moreover have "list_all2 (\<lambda>r r2. length r2 = length (columns d) \<and>
        (\<forall>c. row_get (columns d) r2 c = row_get (columns d) r c)) (rows d) (rows d)"
    using Nil.prems(2) by (simp add: list_all2_same wf_rows_def)
  ultimately show ?case by simp
next
  case (Cons col L)
  let ?cols = "columns d"
  from Cons.prems(1) obtain vs where
    g: "getitem d col = Inr vs"
    and rest: "astype_str_columns env (setitem d col (map (astype_str env) vs)) L = Inr d2"
    by (auto simp: astype_str_columns_def bind_eq_Inr)
  from getitem_Inr[OF g] have vs: "vs = column_values d col" and col: "col \<in> set ?cols" by simp_all
  let ?d' = "setitem d col (map (astype_str env) vs)"
  let ?R0 = "\<lambda>r v. v = astype_str env (row_get ?cols r col)"
  have r0: "list_all2 ?R0 (rows d) (map (astype_str env) vs)"
    by (simp add: vs column_values_def list_all2_map2 list_all2_same)
  have cols': "columns ?d' = ?cols"
    using setitem_rel(1)[OF r0 Cons.prems(2), of col] col by simp
  have rel1: "list_all2 (\<lambda>r r'. length r' = length ?cols \<and>
      (\<exists>v. ?R0 r v \<and> (\<forall>c'. row_get ?cols r' c' = (if c' = col then v else row_get ?cols r c'))))
     (rows d) (rows ?d')"
    using setitem_rel(2)[OF r0 Cons.prems(2), of col] unfolding cols' .
  have wf': "wf_rows (columns ?d') (rows ?d')"
    unfolding cols' using rel1 by (rule wf_rows_rel) simp
  note ih = Cons.IH[OF rest wf']
  from ih have i1: "columns d2 = ?cols" unfolding cols' by (rule conjunct1)
  from ih have i2: "set L \<subseteq> set ?cols" unfolding cols' by (rule conjunct2[THEN conjunct1])
  from ih have rel2: "list_all2 (\<lambda>r r2. length r2 = length ?cols \<and>
        (\<forall>c. row_get ?cols r2 c =
           (if c \<in> set L then astype_str env (row_get ?cols r c) else row_get ?cols r c)))
       (rows ?d') (rows d2)"
    unfolding cols' by (rule conjunct2[THEN conjunct2])
  have rel: "list_all2 (\<lambda>r r2. length r2 = length ?cols \<and>
        (\<forall>c. row_get ?cols r2 c =
           (if c \<in> set (col # L) then astype_str env (row_get ?cols r c) else row_get ?cols r c)))
       (rows d) (rows d2)"
  proof (rule list_all2_trans[OF _ rel1 rel2])
    fix r r' r2
    assume a: "length r' = length ?cols \<and>
      (\<exists>v. ?R0 r v \<and> (\<forall>c'. row_get ?cols r' c' = (if c' = col then v else row_get ?cols r c')))"
      and b: "length r2 = length ?cols \<and>
        (\<forall>c. row_get ?cols r2 c =
           (if c \<in> set L then astype_str env (row_get ?cols r' c) else row_get ?cols r' c))"
    from a have a': "\<And>c'. row_get ?cols r' c' =
        (if c' = col then astype_str env (row_get ?cols r col) else row_get ?cols r c')" by auto
    from b have b': "\<And>c. row_get ?cols r2 c =
           (if c \<in> set L then astype_str env (row_get ?cols r' c) else row_get ?cols r' c)" by auto
    show "length r2 = length ?cols \<and>
        (\<forall>c. row_get ?cols r2 c =
           (if c \<in> set (col # L) then astype_str env (row_get ?cols r c) else row_get ?cols r c))"
      using b by (simp add: a' b')
  qed
  from i1 i2 col rel show ?case by simp
qed

lemma join_cells_astype:
  "join_cells (map (astype_str env) k) = Inr (Str (join ''/'' (map (str_of env) k)))"
proof -
  have "mapE (\<lambda>v. case v of Str s \<Rightarrow> Inr s | _ \<Rightarrow> Inl TypeError) (map (astype_str env) k)
      = Inr (map (str_of env) k)"
    unfolding mapE_map by (rule mapE_all_Inr) (simp add: astype_str_eq)
  then show ?thesis by (simp add: join_cells_def)
qed

lemma select_columns_distinct:
  assumes "select_columns d names = Inr sub" "distinct (columns d)" "wf_rows (columns d) (rows d)"
  shows "columns sub = names" "rows sub = map (\<lambda>r. map (row_get (columns d) r) names) (rows d)"
    "set names \<subseteq> set (columns d)"
proof -
  from assms(1) have sub: "set names \<subseteq> set (columns d)"
    and eq: "sub = d\<lparr>columns := concat (map (\<lambda>c. filter (\<lambda>n. n = c) (columns d)) names),
                   rows := map (pick (columns d) names) (rows d)\<rparr>"
    by (auto simp: select_columns_def split: if_splits)
  show "set names \<subseteq> set (columns d)" by (rule sub)
  show "columns sub = names" using assms(2) sub by (simp add: eq labels_distinct)
  have "map (pick (columns d) names) (rows d) = map (\<lambda>r. map (row_get (columns d) r) names) (rows d)"
    using assms(2,3) sub by (intro map_cong) (simp_all add: wf_rows_def pick_distinct)
  then show "rows sub = map (\<lambda>r. map (row_get (columns d) r) names) (rows d)" by (simp add: eq)
qed

lemma agg_join_rel:
  assumes "agg_join d names = Inr ids" "distinct (columns d)" "wf_rows (columns d) (rows d)"
  shows "list_all2 (\<lambda>r i. join_cells (row_key (columns d) names r) = Inr i) (rows d) ids"
proof -
  from assms(1) obtain sub where s: "select_columns d names = Inr sub"
    and m: "mapE join_cells (rows sub) = Inr ids"
    by (auto simp: agg_join_def bind_eq_Inr)
  from mapE_Inr[OF m] have "list_all2 (\<lambda>x y. join_cells x = Inr y)
      (map (\<lambda>r. map (row_get (columns d) r) names) (rows d)) ids"
    unfolding select_columns_distinct(2)[OF s assms(2,3)] .
  then show ?thesis by (simp add: list_all2_map1 row_key_def)
qed

section \<open>The three parts of the conversion\<close>

lemma list_all2_right:
  "length xs = length ys \<Longrightarrow> \<forall>y \<in> set ys. Q y \<Longrightarrow> list_all2 (\<lambda>x y. Q y) xs ys"
  by (induction xs ys rule: list_induct2) simp_all

lemma statsforecast_names_rel:
  assumes run: "statsforecast_names env d3 cfg gc exog = Inr out"
    and dist: "distinct (map (rename_of [(target cfg, ''y''), (order_by cfg, ''ds''), (gc, ''unique_id'')]) (columns d3))"
    and wf: "wf_rows (columns d3) (rows d3)"
  shows "columns out = [''unique_id'', ''ds'', ''y''] @ exog \<and>
    list_all2 (\<lambda>r3 ro. length ro = length ([''unique_id'', ''ds'', ''y''] @ exog)
        \<and> (\<exists>t. row_get ([''unique_id'', ''ds'', ''y''] @ exog) ro ''ds'' = stamp t)
        \<and> row_get ([''unique_id'', ''ds'', ''y''] @ exog) ro ''unique_id'' =
            (if ''unique_id'' \<in> set (map (rename_of [(target cfg, ''y''), (order_by cfg, ''ds''), (gc, ''unique_id'')]) (columns d3))
             then row_get (map (rename_of [(target cfg, ''y''), (order_by cfg, ''ds''), (gc, ''unique_id'')]) (columns d3)) r3 ''unique_id''
             else Str ''1''))
      (rows d3) (rows out)"
proof -
  define ren where "ren = rename_of [(target cfg, ''y''), (order_by cfg, ''ds''), (gc, ''unique_id'')]"
  define C4 where "C4 = map ren (columns d3)"
  define keep where "keep = [''unique_id'', ''ds'', ''y''] @ exog"
  define d4 where "d4 = rename d3 [(target cfg, ''y''), (order_by cfg, ''ds''), (gc, ''unique_id'')]"
  define d5 where "d5 = (if ''unique_id'' \<notin> set (columns d4)
                       then setitem_const d4 ''unique_id'' (Str ''1'') else d4)"
  define uval where "uval = (\<lambda>r3. if ''unique_id'' \<in> set C4 then row_get C4 r3 ''unique_id'' else Str ''1'')"
  have d4: "columns d4 = C4" "rows d4 = rows d3"
    by (simp_all add: d4_def rename_def C4_def ren_def)
  have dC4: "distinct C4" using dist by (simp add: C4_def ren_def)
  have wf4: "wf_rows C4 (rows d3)" using wf by (simp add: wf_rows_def C4_def)
  have "bind (getitem d5 ''ds'') (\<lambda>ds.
      bind (mapE (to_datetime env) ds) (\<lambda>dates.
      select_columns (setitem d5 ''ds'' (map stamp dates)) keep)) = Inr out"
    using run unfolding statsforecast_names_def Let_def d5_def d4_def keep_def .
  then obtain dsv dates where
    g: "getitem d5 ''ds'' = Inr dsv"
    and m: "mapE (to_datetime env) dsv = Inr dates"
    and sel: "select_columns (setitem d5 ''ds'' (map stamp dates)) keep = Inr out"
    unfolding bind_eq_Inr by blast
  define F where "F = columns d5"
  have d5: "distinct F \<and> wf_rows F (rows d5) \<and>
      list_all2 (\<lambda>r3 r5. length r5 = length F \<and> row_get F r5 ''unique_id'' = uval r3) (rows d3) (rows d5)"
  proof (cases "''unique_id'' \<in> set C4")
    case True
    then have e: "d5 = d4" by (simp add: d5_def d4)
    have "list_all2 (\<lambda>r3 r5. length r5 = length C4 \<and> row_get C4 r5 ''unique_id'' = uval r3) (rows d3) (rows d3)"
      using wf4 True by (simp add: list_all2_same wf_rows_def uval_def)
    then show ?thesis using dC4 wf4 by (simp add: F_def e d4)
  next
    case False
    then have e: "d5 = d4\<lparr>columns := C4 @ [''unique_id''], rows := map (\<lambda>r. r @ [Str ''1'']) (rows d3)\<rparr>"
      by (simp add: d5_def d4 setitem_const_new)
    have F: "F = C4 @ [''unique_id'']" by (simp add: F_def e)
    have r5: "rows d5 = map (\<lambda>r. r @ [Str ''1'']) (rows d3)" by (simp add: e)
    have "list_all2 (\<lambda>r3 r5. length r5 = length F \<and> row_get F r5 ''unique_id'' = uval r3)
       (rows d3) (map (\<lambda>r. r @ [Str ''1'']) (rows d3))"
      unfolding list_all2_map2 using wf4 False
      by (simp add: list_all2_same wf_rows_def F uval_def row_get_append_new)
    moreover have "wf_rows F (map (\<lambda>r. r @ [Str ''1'']) (rows d3))"
      using wf4 by (simp add: wf_rows_def F)
    moreover have "distinct F" using dC4 False by (simp add: F)
    ultimately show ?thesis by (simp add: r5)
  qed
  from d5 have dF: "distinct F" by (rule conjunct1)
  from d5 have wf5: "wf_rows (columns d5) (rows d5)" unfolding F_def by (rule conjunct2[THEN conjunct1])
  from d5 have rel35: "list_all2 (\<lambda>r3 r5. length r5 = length F \<and> row_get F r5 ''unique_id'' = uval r3) (rows d3) (rows d5)"
    by (rule conjunct2[THEN conjunct2])
  from getitem_Inr[OF g] have dsF: "''ds'' \<in> set F" and dsv: "dsv = column_values d5 ''ds''"
    by (simp_all add: F_def)
  have len: "length (rows d5) = length (map stamp dates)"
    using mapE_length[OF m] by (simp add: dsv)
  define d6 where "d6 = setitem d5 ''ds'' (map stamp dates)"
  have r0: "list_all2 (\<lambda>r v. \<exists>t. v = stamp t) (rows d5) (map stamp dates)"
    using len by (rule list_all2_right) auto
  have c6: "columns d6 = F"
    using setitem_rel(1)[OF r0 wf5, of "''ds''"] dsF by (simp add: d6_def F_def)
  have rel56: "list_all2 (\<lambda>r r'. length r' = length F \<and>
      (\<exists>v. (\<exists>t. v = stamp t) \<and> (\<forall>c'. row_get F r' c' = (if c' = ''ds'' then v else row_get F r c'))))
     (rows d5) (rows d6)"
    using setitem_rel(2)[OF r0 wf5, of "''ds''"] unfolding d6_def[symmetric] c6 F_def[symmetric] .
  have wf6: "wf_rows (columns d6) (rows d6)"
    unfolding c6 using rel56 by (rule wf_rows_rel) simp
  have d6F: "distinct (columns d6)" using dF by (simp add: c6)
  from sel have sel': "select_columns d6 keep = Inr out" by (simp add: d6_def)
  have cout: "columns out = keep" by (rule select_columns_distinct(1)[OF sel' d6F wf6])
  have rout: "rows out = map (\<lambda>r. map (row_get F r) keep) (rows d6)"
    using select_columns_distinct(2)[OF sel' d6F wf6] by (simp add: c6)
  have rel6o: "list_all2 (\<lambda>r6 ro. length ro = length keep
        \<and> row_get keep ro ''ds'' = row_get F r6 ''ds''
        \<and> row_get keep ro ''unique_id'' = row_get F r6 ''unique_id'') (rows d6) (rows out)"
    unfolding rout list_all2_map2 by (simp add: list_all2_same keep_def)
  have rel36: "list_all2 (\<lambda>r3 r6. (\<exists>t. row_get F r6 ''ds'' = stamp t) \<and> row_get F r6 ''unique_id'' = uval r3)
      (rows d3) (rows d6)"
  proof (rule list_all2_trans[OF _ rel35 rel56])
    fix r3 r5 r6
    assume a: "length r5 = length F \<and> row_get F r5 ''unique_id'' = uval r3"
      and b: "length r6 = length F \<and>
      (\<exists>v. (\<exists>t. v = stamp t) \<and> (\<forall>c'. row_get F r6 c' = (if c' = ''ds'' then v else row_get F r5 c')))"
    from b obtain t where t: "\<And>c'. row_get F r6 c' = (if c' = ''ds'' then stamp t else row_get F r5 c')"
      by auto
    have "row_get F r6 ''ds'' = stamp t" by (simp add: t)
    moreover have "row_get F r6 ''unique_id'' = uval r3" using a by (simp add: t)
    ultimately show "(\<exists>t. row_get F r6 ''ds'' = stamp t) \<and> row_get F r6 ''unique_id'' = uval r3"
      by blast
  qed
  have rel: "list_all2 (\<lambda>r3 ro. length ro = length keep
        \<and> (\<exists>t. row_get keep ro ''ds'' = stamp t)
        \<and> row_get keep ro ''unique_id'' = uval r3) (rows d3) (rows out)"
  proof (rule list_all2_trans[OF _ rel36 rel6o])
    fix r3 r6 ro
    assume "(\<exists>t. row_get F r6 ''ds'' = stamp t) \<and> row_get F r6 ''unique_id'' = uval r3"
      and "length ro = length keep
        \<and> row_get keep ro ''ds'' = row_get F r6 ''ds''
        \<and> row_get keep ro ''unique_id'' = row_get F r6 ''unique_id''"
    then show "length ro = length keep
        \<and> (\<exists>t. row_get keep ro ''ds'' = stamp t)
        \<and> row_get keep ro ''unique_id'' = uval r3" by simp
  qed
  show ?thesis
    using cout rel unfolding keep_def uval_def C4_def ren_def by (rule conjI)
qed

lemma resample_every_group_rel:
  assumes wl: "well_labelled df cfg"
    and run: "resample_every_group env df cfg = Inr d1"
  shows "columns d1 = columns df \<and> wf_rows (columns df) (rows d1)
    \<and> row_key (columns df) (group_by cfg) ` set (rows d1)
        \<subseteq> row_key (columns df) (group_by cfg) ` set (rows df)
    \<and> (resample_keeps env \<and> (\<forall>r \<in> set (rows df). NaN \<notin> set (row_key (columns df) (group_by cfg) r))
         \<longrightarrow> row_key (columns df) (group_by cfg) ` set (rows df)
              \<subseteq> row_key (columns df) (group_by cfg) ` set (rows d1))
    \<and> (group_by cfg \<noteq> [] \<and> group_by cfg \<noteq> [''__group_by''] \<longrightarrow> set (group_by cfg) \<subseteq> set (columns df))"
proof (cases "group_by cfg \<noteq> [] \<and> group_by cfg \<noteq> [''__group_by'']")
  case False
  with run have "d1 = df" by (auto simp: resample_every_group_def Let_def)
  moreover from wl have "wf_rows (columns df) (rows df)" by (simp add: well_labelled_def)
  ultimately show ?thesis using False by blast
next
  case True
  define cols where "cols = columns df"
  define G where "G = group_by cfg"
  define K where "K = row_key cols G"
  define acc where "acc = \<lparr>columns = cols, index_name = None, index = [], rows = []\<rparr>"
  from wl have d: "distinct cols" and ob: "order_by cfg \<in> set cols" and tg: "target cfg \<in> set cols"
    and nm: "distinct (order_by cfg # target cfg # group_by cfg)"
    by (simp_all add: well_labelled_def cols_def)
  have "bind (groupby df (group_by cfg)) (foldE (resample_group env cfg) acc) = Inr d1"
    using run True unfolding resample_every_group_def Let_def acc_def cols_def by simp
  then obtain groups where gb: "groupby df (group_by cfg) = Inr groups"
    and loop: "foldE (resample_group env cfg) acc groups = Inr d1"
    unfolding bind_eq_Inr by blast
  note gg = groupby_groups[OF gb]
  have sub: "set (group_by cfg) \<subseteq> set cols" using gg(3) by (simp add: cols_def)
  have grp: "\<forall>(k, g) \<in> set groups. columns g = cols \<and> rows g \<noteq> [] \<and> length k = length (group_by cfg)"
    using gg(2) by (auto simp: cols_def)
  have acc: "columns acc = cols" "wf_rows cols (rows acc)" "rows acc = []"
    by (simp_all add: acc_def)
  note l = resample_loop_rows[OF loop acc(1) d acc(2) sub ob tg nm grp]
  from l have l1: "columns d1 = cols" by (rule conjunct1)
  from l have l2: "wf_rows cols (rows d1)" by (rule conjunct2[THEN conjunct1])
  define D where "D = K ` set (rows d1)"
  define Gs where "Gs = fst ` set groups"
  define A where "A = K ` set (rows df)"
  from l have l3: "D \<subseteq> Gs"
    unfolding D_def Gs_def K_def G_def acc(3) by (simp add: conjunct2[THEN conjunct2, THEN conjunct1])
  from l have l4: "resample_keeps env \<longrightarrow> Gs \<subseteq> D"
    unfolding D_def Gs_def K_def G_def acc(3) by (simp add: conjunct2[THEN conjunct2, THEN conjunct2])
  have Gs: "Gs = {k \<in> A. NaN \<notin> set k}"
    unfolding Gs_def A_def K_def G_def cols_def by (rule gg(1))
  have c3: "D \<subseteq> A" using l3 Gs by blast
  have c4: "resample_keeps env \<and> (\<forall>r \<in> set (rows df). NaN \<notin> set (K r)) \<longrightarrow> A \<subseteq> D"
  proof
    assume a: "resample_keeps env \<and> (\<forall>r \<in> set (rows df). NaN \<notin> set (K r))"
    then have "\<forall>k \<in> A. NaN \<notin> set k" unfolding A_def by blast
    then have "Gs = A" unfolding Gs by blast
    with a l4 show "A \<subseteq> D" by blast
  qed
  note f1 = l1[unfolded cols_def] and f2 = l2[unfolded cols_def]
    and f3 = c3[unfolded D_def A_def K_def G_def cols_def]
    and f4 = c4[unfolded D_def A_def K_def G_def cols_def]
    and f5 = sub[unfolded cols_def]
  from f1 f2 f3 f4 f5 show ?thesis by (intro conjI) (assumption | rule impI)+
qed

end
